theory Spec2Isabelle
  imports Complex_Main
begin

section \<open>Data model: the Option contract\<close>

text \<open>
  Floating-point numbers of the source (Python \<open>float\<close>, \<open>np.float64\<close>) are idealised
  as real numbers: rounding and overflow are outside this development.

  The analytic pricer is modelled with its exception and with the computations that
  leave the finite numbers as outcomes of their own (see there). The lattice pricer is
  modelled on arrays of real numbers with the division of the reals, which is what the
  source computes where it divides by nothing that is zero: for positive volatility and
  time to maturity and at least one level of the tree. The theorems that give a lattice
  price or a lattice probability in closed form assume this.

  A numeric attribute of a contract is a Python float, or for the constructor and the
  lattice pricer either a scalar or a one-dimensional array (a batch of contracts, one
  per position).
\<close>

datatype error = ValueError string | IndexError string | UnboundLocalError string
  | ZeroDivisionError string

datatype field = Scalar real | Batch "real list"

text \<open>
  The class \<open>Option\<close> of \<open>Option.py\<close>. The record is polymorphic in the type of its
  numeric attributes: \<open>field Option\<close> is what the constructor and the lattice pricer
  handle, \<open>pyfloat Option\<close> is the contract with \<open>float\<close> attributes that the
  signatures of \<open>black_scholes.py\<close> declare. The attribute \<open>div\<close> is named
  \<open>dividend\<close> here, \<open>type\<close> is \<open>kind\<close>.
\<close>

record 'a Option =
  tau :: 'a
  spot :: 'a
  strike :: 'a
  sigma :: 'a
  r :: 'a
  dividend :: 'a
  kind :: string
  region :: string

text \<open>
  \<open>np.any(x)\<close>: whether some element of \<open>x\<close> is non-zero; the result is a boolean.
\<close>

fun np_any :: "field \<Rightarrow> bool" where
  "np_any (Scalar a) = (a \<noteq> 0)"
| "np_any (Batch xs) = (\<exists>a \<in> set xs. a \<noteq> 0)"

text \<open>
  \<open>np.any(x) < 0\<close>: the source compares the boolean with \<open>0\<close>; Python and numpy read
  \<open>True\<close> as \<open>1\<close> and \<open>False\<close> as \<open>0\<close> in the comparison.
\<close>

definition any_lt_zero :: "field \<Rightarrow> bool" where
  "any_lt_zero x = ((of_bool (np_any x) :: int) < 0)"

text \<open>
  \<open>str.lower()\<close> on the ASCII letters. (No character outside ASCII lowers to one of
  the letters of \<open>call\<close>, \<open>put\<close>, \<open>eu\<close>, \<open>na\<close>, so the comparisons of the constructor
  are decided by the ASCII letters alone.)
\<close>

definition lower_char :: "char \<Rightarrow> char" where
  "lower_char c =
     (let k = (of_char c :: nat) in if 65 \<le> k \<and> k \<le> 90 then char_of (k + 32) else c)"

definition lower :: "string \<Rightarrow> string" where
  "lower s = map lower_char s"

text \<open>\<open>Option.__init__\<close>: the checks in the order of the source.\<close>

definition Option_init ::
  "field \<Rightarrow> field \<Rightarrow> field \<Rightarrow> field \<Rightarrow> field \<Rightarrow> field \<Rightarrow> string \<Rightarrow> string
     \<Rightarrow> error + field Option" where
  "Option_init tau0 spot0 strike0 sigma0 r0 div0 type0 region0 =
     (if any_lt_zero tau0 then Inl (ValueError ''Invalid Time-To-Maturity (negative value)'')
      else if any_lt_zero spot0 then Inl (ValueError ''Invalid Spot price (negative value)'')
      else if any_lt_zero strike0 then Inl (ValueError ''Invalid Strike price (negative value)'')
      else if any_lt_zero sigma0 then Inl (ValueError ''Invalid Volatility (negative value)'')
      else if any_lt_zero div0 then Inl (ValueError ''Invalid Dividend-yield (negative value)'')
      else
        let in_type = lower type0 in
        if in_type \<noteq> ''call'' \<and> in_type \<noteq> ''put'' then Inl (ValueError ''Invalid Option type'')
        else
          let in_region = lower region0 in
          if in_region \<noteq> ''eu'' \<and> in_region \<noteq> ''na'' then Inl (ValueError ''Invalid Option region'')
          else Inr \<lparr>tau = tau0, spot = spot0, strike = strike0, sigma = sigma0, r = r0,
                    dividend = div0, kind = in_type, region = in_region\<rparr>)"

section \<open>The analytic pricer (\<open>black_scholes.py\<close>)\<close>

text \<open>
  \<open>scipy.stats.norm.cdf\<close>, the cumulative distribution function of the standard normal
  distribution, is library code. It is given here by the power series of
  \<open>1/2 + 1/sqrt(2 pi) * integral from 0 to x of exp(-t^2/2)\<close>, integrated term by term.
\<close>

definition N_term :: "real \<Rightarrow> nat \<Rightarrow> real" where
  "N_term x n = (- 1) ^ n * (x ^ (2 * n + 1) / (fact n * 2 ^ n * real (2 * n + 1)))"

definition N :: "real \<Rightarrow> real" where
  "N x = 1 / 2 + 1 / sqrt (2 * pi) * (\<Sum>n. N_term x n)"

definition dN :: "real \<Rightarrow> real" where
  "dN x = 1 / sqrt (2 * pi) * exp (- (x ^ 2) / 2)"

text \<open>
  The attributes that the analytic pricer reads are Python floats: a real number or
  one of \<open>inf\<close>, \<open>-inf\<close> and \<open>nan\<close>, which \<open>NonFinite\<close> stands for.

  A computation of the analytic pricer has one of three outcomes. It raises; or it
  returns the real number that its formula gives; or one of the values that it reads or
  computes on the way is not finite (an attribute that is not finite, a logarithm of a
  number that is not positive, a root of a negative number, a numpy division by zero),
  where numpy warns, goes on with \<open>inf\<close> or \<open>nan\<close> and the function returns some float
  that the model does not follow: the outcome \<open>Degenerate\<close>.
\<close>

datatype pyfloat = Finite real | NonFinite

datatype 'a outcome = Raises error | Degenerate | Returns 'a

definition bindO :: "'a outcome \<Rightarrow> ('a \<Rightarrow> 'b outcome) \<Rightarrow> 'b outcome" where
  "bindO m f = (case m of Raises e \<Rightarrow> Raises e | Degenerate \<Rightarrow> Degenerate | Returns x \<Rightarrow> f x)"

text \<open>Reading an attribute in an arithmetic expression.\<close>

fun read :: "pyfloat \<Rightarrow> real outcome" where
  "read (Finite x) = Returns x"
| "read NonFinite = Degenerate"

text \<open>
  \<open>a / b\<close> on two Python floats raises \<open>ZeroDivisionError\<close> when \<open>b\<close> is zero,
  whatever \<open>a\<close> is.
\<close>

fun py_div :: "pyfloat \<Rightarrow> pyfloat \<Rightarrow> real outcome" where
  "py_div a (Finite y) =
     (if y = 0 then Raises (ZeroDivisionError ''float division by zero'')
      else bindO (read a) (\<lambda>x. Returns (x / y)))"
| "py_div a NonFinite = Degenerate"

text \<open>
  \<open>np.log\<close>, \<open>np.sqrt\<close> and the division of numpy floats do not raise: outside the
  domain they give \<open>-inf\<close>, \<open>inf\<close> or \<open>nan\<close>.
\<close>

definition np_log :: "real \<Rightarrow> real outcome" where
  "np_log x = (if 0 < x then Returns (ln x) else Degenerate)"

definition np_sqrt :: "real \<Rightarrow> real outcome" where
  "np_sqrt x = (if 0 \<le> x then Returns (sqrt x) else Degenerate)"

definition np_div :: "real \<Rightarrow> real \<Rightarrow> real outcome" where
  "np_div x y = (if y = 0 then Degenerate else Returns (x / y))"

definition d_1 :: "pyfloat Option \<Rightarrow> real outcome" where
  "d_1 o1 =
     bindO (py_div (spot o1) (strike o1)) (\<lambda>q.
     bindO (np_log q) (\<lambda>lg.
     bindO (read (r o1)) (\<lambda>rt.
     bindO (read (sigma o1)) (\<lambda>sg.
     bindO (read (tau o1)) (\<lambda>t.
     let num = lg + (rt + 0.5 * sg ^ 2) * t in
     bindO (np_sqrt t) (\<lambda>st.
     let denom = sg * st in
     np_div num denom))))))"

definition d_2 :: "pyfloat Option \<Rightarrow> real outcome" where
  "d_2 o1 =
     bindO (d_1 o1) (\<lambda>d1.
     bindO (read (sigma o1)) (\<lambda>sg.
     bindO (read (tau o1)) (\<lambda>t.
     bindO (np_sqrt t) (\<lambda>st.
     Returns (d1 - sg * st)))))"

text \<open>\<open>option_price\<close> of \<open>black_scholes.py\<close>.\<close>

definition bs_option_price :: "pyfloat Option \<Rightarrow> real outcome" where
  "bs_option_price o1 =
     (if kind o1 = ''call'' then
        bindO (d_1 o1) (\<lambda>d1.
        bindO (d_2 o1) (\<lambda>d2.
        bindO (read (spot o1)) (\<lambda>S.
        bindO (read (strike o1)) (\<lambda>K.
        bindO (read (r o1)) (\<lambda>rt.
        bindO (read (tau o1)) (\<lambda>t.
        let Ct = N d1 * S - N d2 * K * exp (- rt * t)
        in Returns Ct))))))
      else
        bindO (d_1 o1) (\<lambda>d1.
        bindO (d_2 o1) (\<lambda>d2.
        bindO (read (spot o1)) (\<lambda>S.
        bindO (read (strike o1)) (\<lambda>K.
        bindO (read (r o1)) (\<lambda>rt.
        bindO (read (tau o1)) (\<lambda>t.
        let Pt = N (- d2) * K * exp (- rt * t) - N (- d1) * S
        in Returns Pt)))))))"

text \<open>\<open>greeks\<close>: the tuple (delta, gamma, vega, theta, rho).\<close>

definition greeks :: "pyfloat Option \<Rightarrow> (real \<times> real \<times> real \<times> real \<times> real) outcome" where
  "greeks o1 =
     bindO (d_1 o1) (\<lambda>d1.
     bindO (d_2 o1) (\<lambda>d2.
     bindO (read (spot o1)) (\<lambda>S.
     bindO (read (strike o1)) (\<lambda>K.
     bindO (read (sigma o1)) (\<lambda>sg.
     bindO (read (r o1)) (\<lambda>rt.
     bindO (read (tau o1)) (\<lambda>t.
     bindO (np_sqrt t) (\<lambda>st.
     bindO (np_div (dN d1) (S * sg * st)) (\<lambda>gamma.
     let vega = S * dN d1 * st in
     if kind o1 = ''call'' then
       let delta = N d1 in
       bindO (np_div (- (S * dN d1 * sg)) (2 * st)) (\<lambda>th.
       let theta = th - rt * K * exp (- rt * t) * N d2;
           rho = K * t * exp (- rt * t) * N d2
       in Returns (delta, gamma, vega, theta, rho))
     else
       let delta = N d1 - 1 in
       bindO (np_div (- (S * dN d1 * sg)) (2 * st)) (\<lambda>th.
       let theta = th + rt * K * exp (- rt * t) * N (- d2);
           rho = - K * t * exp (- rt * t) * N (- d2)
       in Returns (delta, gamma, vega, theta, rho)))))))))))"

text \<open>
  \<open>find_iv\<close>. One pass of the loop computes
  \<open>f = option_price(o) - price\<close>, \<open>df = o.spot * dN(d_1(o)) * np.sqrt(o.tau)\<close> and
  \<open>sigma_new = o.sigma - f / df\<close>. None of these operations raises except the Python
  division inside \<open>d_1\<close>; \<open>f / df\<close> is a division of numpy floats.

  When the computation is degenerate, \<open>sigma_new\<close> is not finite. Indeed \<open>d_1\<close> is
  finite only if all the attributes it reads are finite, the ratio of spot and strike and
  the time to maturity are positive and the volatility is not zero, and then all the
  other values of the pass are finite and \<open>df\<close> is not zero. Otherwise \<open>d_1\<close> is \<open>inf\<close>,
  \<open>-inf\<close> or \<open>nan\<close>, so \<open>dN(d_1)\<close> is zero or \<open>nan\<close> and so is \<open>df\<close>; a float
  divided by zero or by \<open>nan\<close> is \<open>inf\<close>, \<open>-inf\<close> or \<open>nan\<close>, and so is \<open>sigma_new\<close>.
\<close>

definition newton_update :: "pyfloat Option \<Rightarrow> real \<Rightarrow> error + pyfloat" where
  "newton_update o1 price =
     (case
        bindO (bs_option_price o1) (\<lambda>p.
        let f = p - price in
        bindO (read (spot o1)) (\<lambda>S.
        bindO (d_1 o1) (\<lambda>d1.
        bindO (read (tau o1)) (\<lambda>t.
        bindO (np_sqrt t) (\<lambda>st.
        let df = S * dN d1 * st in
        bindO (read (sigma o1)) (\<lambda>sg.
        bindO (np_div f df) (\<lambda>q.
        Returns (sg - q))))))))
      of Raises e \<Rightarrow> Inl e
       | Degenerate \<Rightarrow> Inr NonFinite
       | Returns sigma_new \<Rightarrow> Inr (Finite sigma_new))"

text \<open>
  The test \<open>np.abs(sigma_new - o.sigma) < 1e-5\<close>: a comparison with \<open>inf\<close> or \<open>nan\<close>
  on the left is false.
\<close>

fun within_tolerance :: "pyfloat \<Rightarrow> pyfloat \<Rightarrow> bool" where
  "within_tolerance (Finite x) (Finite s) = (\<bar>x - s\<bar> < 1 / 100000)"
| "within_tolerance (Finite x) NonFinite = False"
| "within_tolerance NonFinite s = False"

text \<open>
  The value returned: \<open>sigma_new\<close> from inside the loop, the literal \<open>np.nan\<close> after
  it.
\<close>

datatype iv_result = Value real | NaN

fun returned :: "pyfloat \<Rightarrow> iv_result" where
  "returned (Finite x) = Value x"
| "returned NonFinite = NaN"

text \<open>
  The solver writes to the contract it is given, so the model returns the contract as
  the call leaves it, also when the call raises, together with the exception or the
  value returned. \<open>newton_iter k o1 price\<close> is the loop \<open>for i in range(k)\<close> started
  on the contract \<open>o1\<close>. The initial guess and the observed price are finite.
\<close>

fun newton_iter ::
  "nat \<Rightarrow> pyfloat Option \<Rightarrow> real \<Rightarrow> (error + iv_result) \<times> pyfloat Option" where
  "newton_iter 0 o1 price = (Inr NaN, o1)"
| "newton_iter (Suc k) o1 price =
     (case newton_update o1 price of
        Inl e \<Rightarrow> (Inl e, o1)
      | Inr sigma_new \<Rightarrow>
          if within_tolerance sigma_new (sigma o1) then (Inr (returned sigma_new), o1)
          else newton_iter k (o1\<lparr>sigma := sigma_new\<rparr>) price)"

definition find_iv ::
  "pyfloat Option \<Rightarrow> real \<Rightarrow> real \<Rightarrow> (error + iv_result) \<times> pyfloat Option" where
  "find_iv o1 sigma_init price = newton_iter 100 (o1\<lparr>sigma := Finite sigma_init\<rparr>) price"

text \<open>
  Auxiliary notions for stating what the solver does. \<open>iv_contract k o1 price\<close> is
  the contract after \<open>k\<close> passes of the loop that wrote their update to it, and
  \<open>iv_state k o1 sigma_init price\<close> the same when the loop starts after the assignment
  \<open>o.sigma = sigma_init\<close>.
\<close>

fun iv_contract :: "nat \<Rightarrow> pyfloat Option \<Rightarrow> real \<Rightarrow> pyfloat Option" where
  "iv_contract 0 o1 price = o1"
| "iv_contract (Suc k) o1 price =
     (case newton_update o1 price of
        Inl e \<Rightarrow> o1
      | Inr sigma_new \<Rightarrow> iv_contract k (o1\<lparr>sigma := sigma_new\<rparr>) price)"

definition iv_state :: "nat \<Rightarrow> pyfloat Option \<Rightarrow> real \<Rightarrow> real \<Rightarrow> pyfloat Option" where
  "iv_state k o1 sigma_init price = iv_contract k (o1\<lparr>sigma := Finite sigma_init\<rparr>) price"

text \<open>
  The formulas of the specification, from spot \<open>S\<close>, strike \<open>K\<close>, rate \<open>rt\<close>, volatility
  \<open>sg\<close> and time to maturity \<open>t\<close>: the standardized arguments, the closed-form price
  and the vega.
\<close>

definition spec_d_plus :: "real \<Rightarrow> real \<Rightarrow> real \<Rightarrow> real \<Rightarrow> real \<Rightarrow> real" where
  "spec_d_plus S K rt sg t = (ln (S / K) + (rt + sg\<^sup>2 / 2) * t) / (sg * sqrt t)"

definition spec_d_minus :: "real \<Rightarrow> real \<Rightarrow> real \<Rightarrow> real \<Rightarrow> real \<Rightarrow> real" where
  "spec_d_minus S K rt sg t = spec_d_plus S K rt sg t - sg * sqrt t"

definition spec_bs_price :: "string \<Rightarrow> real \<Rightarrow> real \<Rightarrow> real \<Rightarrow> real \<Rightarrow> real \<Rightarrow> real" where
  "spec_bs_price knd S K rt sg t =
     (if knd = ''call''
      then N (spec_d_plus S K rt sg t) * S - N (spec_d_minus S K rt sg t) * K * exp (- rt * t)
      else N (- spec_d_minus S K rt sg t) * K * exp (- rt * t) - N (- spec_d_plus S K rt sg t) * S)"

definition spec_vega :: "real \<Rightarrow> real \<Rightarrow> real \<Rightarrow> real \<Rightarrow> real \<Rightarrow> real" where
  "spec_vega S K rt sg t = S * dN (spec_d_plus S K rt sg t) * sqrt t"

text \<open>
  A contract with finite attributes, and the concrete scenario of the specification:
  tau = 1, spot = 100, strike = 90, sigma = 0.2, r = 0.02, no dividend, a European call.
\<close>

definition contract ::
  "real \<Rightarrow> real \<Rightarrow> real \<Rightarrow> real \<Rightarrow> real \<Rightarrow> real \<Rightarrow> string \<Rightarrow> string \<Rightarrow> pyfloat Option" where
  "contract t S K sg rt q knd rg =
     \<lparr>tau = Finite t, spot = Finite S, strike = Finite K, sigma = Finite sg, r = Finite rt,
      dividend = Finite q, kind = knd, region = rg\<rparr>"

definition scenario :: "pyfloat Option" where
  "scenario = contract 1 100 90 (1 / 5) (1 / 50) 0 ''call'' ''eu''"

text \<open>
  Two observed prices for the scenario and the initial guess 0.3. From the first the
  Newton step at 0.3 is \<open>-0.3\<close>: it leads to the volatility zero, where \<open>d_1\<close>
  divides by zero. From the second the step at 0.3 is \<open>-0.000005\<close>, within the
  tolerance.
\<close>

definition quote_far :: real where
  "quote_far = spec_bs_price ''call'' 100 90 (1 / 50) (3 / 10) 1
                 - 3 / 10 * spec_vega 100 90 (1 / 50) (3 / 10) 1"

definition quote_near :: real where
  "quote_near = spec_bs_price ''call'' 100 90 (1 / 50) (3 / 10) 1
                  - 1 / 200000 * spec_vega 100 90 (1 / 50) (3 / 10) 1"

text \<open>The absolute value of the \<open>n\<close>-th term of the series of \<open>N\<close>.\<close>

definition N_abs :: "real \<Rightarrow> nat \<Rightarrow> real" where
  "N_abs x n = x ^ (2 * n + 1) / (fact n * 2 ^ n * real (2 * n + 1))"

section \<open>Arrays with broadcasting\<close>

text \<open>
  A numpy array of at most two dimensions: its number of dimensions, its extent along
  the rows and the columns, and its elements. The shape is \<open>()\<close> when \<open>ndim = 0\<close>
  (then \<open>nrows = ncols = 1\<close>), \<open>(ncols,)\<close> when \<open>ndim = 1\<close> (then \<open>nrows = 1\<close>) and
  \<open>(nrows, ncols)\<close> when \<open>ndim = 2\<close>. Only the elements \<open>el a i j\<close> with
  \<open>i < nrows a\<close> and \<open>j < ncols a\<close> are ever read.
\<close>

record 'a ndarray =
  ndim :: nat
  nrows :: nat
  ncols :: nat
  el :: "nat \<Rightarrow> nat \<Rightarrow> 'a"

definition bindE :: "error + 'a \<Rightarrow> ('a \<Rightarrow> error + 'b) \<Rightarrow> error + 'b" where
  "bindE m f = (case m of Inl e \<Rightarrow> Inl e | Inr x \<Rightarrow> f x)"

definition scalar :: "'a \<Rightarrow> 'a ndarray" where
  "scalar a = \<lparr>ndim = 0, nrows = 1, ncols = 1, el = (\<lambda>i j. a)\<rparr>"

definition array1 :: "'a list \<Rightarrow> 'a ndarray" where
  "array1 xs = \<lparr>ndim = 1, nrows = 1, ncols = length xs, el = (\<lambda>i j. xs ! j)\<rparr>"

text \<open>A Python float or a one-dimensional array as numpy reads it in an operation.\<close>

fun asarray :: "field \<Rightarrow> real ndarray" where
  "asarray (Scalar a) = scalar a"
| "asarray (Batch xs) = array1 xs"

text \<open>\<open>_to_col\<close>: \<open>x[:, None]\<close> turns shape \<open>(M,)\<close> into \<open>(M, 1)\<close>.\<close>

definition to_col :: "field \<Rightarrow> real ndarray" where
  "to_col x =
     (let a = asarray x
      in if ndim a > 0 then \<lparr>ndim = 2, nrows = ncols a, ncols = 1, el = (\<lambda>i j. el a 0 i)\<rparr>
         else a)"

text \<open>\<open>np.arange(n)\<close> and \<open>np.arange(n).reshape(1, -1)\<close>.\<close>

definition arange :: "nat \<Rightarrow> int ndarray" where
  "arange n = \<lparr>ndim = 1, nrows = 1, ncols = n, el = (\<lambda>i j. int j)\<rparr>"

definition arange_row :: "nat \<Rightarrow> int ndarray" where
  "arange_row n = \<lparr>ndim = 2, nrows = 1, ncols = n, el = (\<lambda>i j. int j)\<rparr>"

text \<open>An elementwise operation on one array, or on an array and a Python scalar.\<close>

definition ufunc1 :: "('a \<Rightarrow> 'b) \<Rightarrow> 'a ndarray \<Rightarrow> 'b ndarray" where
  "ufunc1 f a = \<lparr>ndim = ndim a, nrows = nrows a, ncols = ncols a, el = (\<lambda>i j. f (el a i j))\<rparr>"

text \<open>
  An elementwise operation on two arrays. numpy aligns the shapes at the last
  dimension; two extents are compatible when they are equal or one of them is 1, and
  the extent 1 is stretched. Incompatible shapes raise \<open>ValueError\<close>.
\<close>

definition compat :: "nat \<Rightarrow> nat \<Rightarrow> bool" where
  "compat m n = (m = n \<or> m = 1 \<or> n = 1)"

definition bdim :: "nat \<Rightarrow> nat \<Rightarrow> nat" where
  "bdim m n = (if m = 1 then n else m)"

definition broadcast :: "('a \<Rightarrow> 'b \<Rightarrow> 'c) \<Rightarrow> 'a ndarray \<Rightarrow> 'b ndarray \<Rightarrow> 'c ndarray" where
  "broadcast f a b =
     \<lparr>ndim = max (ndim a) (ndim b),
      nrows = bdim (nrows a) (nrows b),
      ncols = bdim (ncols a) (ncols b),
      el = (\<lambda>i j. f (el a (if nrows a = 1 then 0 else i) (if ncols a = 1 then 0 else j))
                     (el b (if nrows b = 1 then 0 else i) (if ncols b = 1 then 0 else j)))\<rparr>"

definition ufunc2 ::
  "('a \<Rightarrow> 'b \<Rightarrow> 'c) \<Rightarrow> 'a ndarray \<Rightarrow> 'b ndarray \<Rightarrow> error + 'c ndarray" where
  "ufunc2 f a b =
     (if compat (nrows a) (nrows b) \<and> compat (ncols a) (ncols b) then Inr (broadcast f a b)
      else Inl (ValueError ''operands could not be broadcast together''))"

text \<open>
  The slices \<open>a[..., :-1]\<close> and \<open>a[..., 1:]\<close> along the last dimension; an array
  without dimensions cannot be sliced.
\<close>

definition drop_last :: "'a ndarray \<Rightarrow> error + 'a ndarray" where
  "drop_last a =
     (if ndim a = 0 then Inl (IndexError ''too many indices for array'')
      else Inr \<lparr>ndim = ndim a, nrows = nrows a, ncols = ncols a - 1, el = el a\<rparr>)"

definition drop_first :: "'a ndarray \<Rightarrow> error + 'a ndarray" where
  "drop_first a =
     (if ndim a = 0 then Inl (IndexError ''too many indices for array'')
      else Inr \<lparr>ndim = ndim a, nrows = nrows a, ncols = ncols a - 1,
                el = (\<lambda>i j. el a i (j + 1))\<rparr>)"

text \<open>\<open>a.flatten()\<close> lists the elements row by row; \<open>a.item()\<close> needs exactly one.\<close>

definition flatten :: "'a ndarray \<Rightarrow> 'a list" where
  "flatten a = concat (map (\<lambda>i. map (\<lambda>j. el a i j) [0..<ncols a]) [0..<nrows a])"

definition item :: "'a ndarray \<Rightarrow> error + 'a" where
  "item a =
     (if nrows a * ncols a = 1 then Inr (el a 0 0)
      else Inl (ValueError ''can only convert an array of size 1 to a Python scalar''))"

text \<open>
  \<open>np.sum(a[mask])\<close> for a boolean mask. A mask of the shape of \<open>a\<close> selects
  elements; a one-dimensional mask on a two-dimensional array selects rows; a mask
  without dimensions selects all or nothing; every other combination of shapes raises
  \<open>IndexError\<close>.
\<close>

definition masked_sum :: "real ndarray \<Rightarrow> bool ndarray \<Rightarrow> error + real" where
  "masked_sum a msk =
     (if ndim msk = 0 then
        Inr (if el msk 0 0 then (\<Sum>i<nrows a. \<Sum>j<ncols a. el a i j) else 0)
      else if ndim a < ndim msk then Inl (IndexError ''too many indices for array'')
      else if ndim msk = ndim a then
        (if nrows msk = nrows a \<and> ncols msk = ncols a
         then Inr (\<Sum>i<nrows a. \<Sum>j<ncols a. if el msk i j then el a i j else 0)
         else Inl (IndexError ''boolean index did not match indexed array''))
      else
        (if ncols msk = nrows a
         then Inr (\<Sum>i<nrows a. \<Sum>j<ncols a. if el msk 0 i then el a i j else 0)
         else Inl (IndexError ''boolean index did not match indexed array'')))"

section \<open>The lattice pricer (\<open>bopm.py\<close>)\<close>

text \<open>
  The expression \<open>spot * (u ** (i - j)) * (d ** j)\<close> with \<open>j\<close> the row vector
  \<open>np.arange(i + 1).reshape(1, -1)\<close>: the asset prices at level \<open>i\<close> of the tree. The
  source writes it out twice, for the leaves and for the early-exercise test.
\<close>

definition asset_row ::
  "real ndarray \<Rightarrow> real ndarray \<Rightarrow> real ndarray \<Rightarrow> nat \<Rightarrow> error + real ndarray" where
  "asset_row spot1 u d i =
     (let j = arange_row (i + 1) in
      bindE (ufunc2 (\<lambda>x k. x powi k) u (ufunc1 (\<lambda>k. int i - k) j)) (\<lambda>up.
      bindE (ufunc2 (*) spot1 up) (\<lambda>su.
      bindE (ufunc2 (\<lambda>x k. x powi k) d j) (\<lambda>dn.
      ufunc2 (*) su dn))))"

text \<open>
  The body of the loop \<open>for i in range(n - 1, -1, -1)\<close>: the discounted expectation
  over the two children of each node and, for the region \<open>us\<close>, the comparison with
  the exercise value at level \<open>i\<close>.
\<close>

definition backward_step ::
  "field Option \<Rightarrow> real ndarray \<Rightarrow> real ndarray \<Rightarrow> real ndarray \<Rightarrow> real ndarray \<Rightarrow> nat
     \<Rightarrow> real ndarray \<Rightarrow> error + real ndarray" where
  "backward_step o1 dt u d p i option_values =
     bindE (ufunc2 (*) (ufunc1 uminus (asarray (r o1))) dt) (\<lambda>rdt.
     bindE (drop_last option_values) (\<lambda>ups.
     bindE (ufunc2 (*) p ups) (\<lambda>pu.
     bindE (drop_first option_values) (\<lambda>downs.
     bindE (ufunc2 (*) (ufunc1 (\<lambda>x. 1 - x) p) downs) (\<lambda>qd.
     bindE (ufunc2 (+) pu qd) (\<lambda>ev.
     bindE (ufunc2 (*) (ufunc1 exp rdt) ev) (\<lambda>cont.
       if region o1 = ''us'' then
         bindE (asset_row (asarray (spot o1)) u d i) (\<lambda>current_assets.
         bindE (if kind o1 = ''call'' then ufunc2 (-) current_assets (to_col (strike o1))
                else ufunc2 (-) (to_col (strike o1)) current_assets) (\<lambda>diff.
         ufunc2 max cont (ufunc1 (\<lambda>x. max x 0) diff)))
       else Inr cont)))))))"

fun backward ::
  "field Option \<Rightarrow> real ndarray \<Rightarrow> real ndarray \<Rightarrow> real ndarray \<Rightarrow> real ndarray \<Rightarrow> nat
     \<Rightarrow> real ndarray \<Rightarrow> error + real ndarray" where
  "backward o1 dt u d p 0 option_values = Inr option_values"
| "backward o1 dt u d p (Suc i) option_values =
     bindE (backward_step o1 dt u d p i option_values) (backward o1 dt u d p i)"

text \<open>
  \<open>option_price\<close> of \<open>bopm.py\<close>. It returns an array when the node values have more
  than one dimension and a float otherwise.
\<close>

datatype price = Float real | Array "real list"

definition bopm_option_price :: "field Option \<Rightarrow> nat \<Rightarrow> error + price" where
  "bopm_option_price o1 n =
     (let dt = ufunc1 (\<lambda>x. x / real n) (to_col (tau o1)) in
      bindE (ufunc2 (*) (to_col (sigma o1)) (ufunc1 sqrt dt)) (\<lambda>sd.
      let u = ufunc1 exp sd;
          d = ufunc1 (\<lambda>x. 1 / x) u in
      bindE (ufunc2 (-) (asarray (r o1)) (asarray (dividend o1))) (\<lambda>rq.
      bindE (ufunc2 (*) rq dt) (\<lambda>rqdt.
      bindE (ufunc2 (-) (ufunc1 exp rqdt) d) (\<lambda>num.
      bindE (ufunc2 (-) u d) (\<lambda>den.
      bindE (ufunc2 (/) num den) (\<lambda>p.
      bindE (asset_row (asarray (spot o1)) u d n) (\<lambda>asset_prices.
      bindE (if kind o1 = ''call'' then ufunc2 (-) asset_prices (to_col (strike o1))
             else if kind o1 = ''put'' then ufunc2 (-) (to_col (strike o1)) asset_prices
             else Inl (UnboundLocalError ''option_values'')) (\<lambda>diff.
      bindE (backward o1 dt u d p n (ufunc1 (\<lambda>x. max x 0) diff)) (\<lambda>option_values.
      if ndim option_values > 1 then Inr (Array (flatten option_values))
      else bindE (item option_values) (\<lambda>v. Inr (Float v))))))))))))"

text \<open>
  \<open>scipy.stats.binom.pmf(k, n, p)\<close> is library code: the probability of \<open>k\<close>
  successes in \<open>n\<close> trials of probability \<open>p\<close>, for \<open>p\<close> between 0 and 1.
\<close>

definition binom_pmf :: "int \<Rightarrow> nat \<Rightarrow> real \<Rightarrow> real" where
  "binom_pmf k n p =
     (if 0 \<le> k \<and> k \<le> int n then real (n choose nat k) * p ^ nat k * (1 - p) ^ (n - nat k)
      else 0)"

text \<open>
  \<open>prob_of_profit\<close> of \<open>bopm.py\<close>, in two parts: the node probabilities with the
  masks of the profitable and the in-the-money nodes, and the sums over the masks.
  Here the attributes are used as they are, without \<open>_to_col\<close>; dividing a Python
  float by the integer 0 raises.
\<close>

definition price_array :: "price \<Rightarrow> real ndarray" where
  "price_array v = (case v of Float a \<Rightarrow> scalar a | Array xs \<Rightarrow> array1 xs)"

definition prob_nodes ::
  "field Option \<Rightarrow> real \<Rightarrow> nat \<Rightarrow> error + (real ndarray \<times> bool ndarray \<times> bool ndarray)" where
  "prob_nodes o1 mu n =
     bindE (bopm_option_price o1 n) (\<lambda>price.
     bindE (case tau o1 of
              Scalar t \<Rightarrow> if n = 0 then Inl (ZeroDivisionError ''float division by zero'')
                          else Inr (scalar (t / real n))
            | Batch ts \<Rightarrow> Inr (ufunc1 (\<lambda>x. x / real n) (array1 ts))) (\<lambda>dt.
     bindE (ufunc2 (*) (asarray (sigma o1)) (ufunc1 sqrt dt)) (\<lambda>sd.
     let u = ufunc1 exp sd;
         d = ufunc1 (\<lambda>x. 1 / x) u;
         j = arange (n + 1) in
     bindE (ufunc2 (\<lambda>x k. x powi k) u (ufunc1 (\<lambda>k. int n - k) j)) (\<lambda>up.
     bindE (ufunc2 (*) (asarray (spot o1)) up) (\<lambda>su.
     bindE (ufunc2 (\<lambda>x k. x powi k) d j) (\<lambda>dn.
     bindE (ufunc2 (*) su dn) (\<lambda>final_spot.
     bindE (if kind o1 = ''call'' then ufunc2 (\<lambda>x y. x > y) final_spot (asarray (strike o1))
            else ufunc2 (\<lambda>x y. x < y) final_spot (asarray (strike o1))) (\<lambda>is_itm.
     bindE (if kind o1 = ''call'' then ufunc2 (-) final_spot (asarray (strike o1))
            else ufunc2 (-) (asarray (strike o1)) final_spot) (\<lambda>diff.
     let payoff = ufunc1 (\<lambda>x. max x 0) diff in
     bindE (ufunc2 (*) (asarray (r o1)) (asarray (tau o1))) (\<lambda>rt.
     bindE (ufunc2 (*) (price_array price) (ufunc1 exp rt)) (\<lambda>fwd.
     bindE (ufunc2 (\<lambda>x y. x > y) payoff fwd) (\<lambda>is_profitable.
     bindE (ufunc2 (-) (ufunc1 (\<lambda>x. exp (mu * x)) dt) d) (\<lambda>num.
     bindE (ufunc2 (-) u d) (\<lambda>den.
     bindE (ufunc2 (/) num den) (\<lambda>p_real.
     bindE (ufunc2 (\<lambda>k p. binom_pmf k n p) j p_real) (\<lambda>probabilites.
     Inr (probabilites, is_profitable, is_itm)))))))))))))))))"

definition bopm_prob_of_profit :: "field Option \<Rightarrow> real \<Rightarrow> nat \<Rightarrow> error + (real \<times> real)" where
  "bopm_prob_of_profit o1 mu n =
     bindE (prob_nodes o1 mu n) (\<lambda>(probabilites, is_profitable, is_itm).
     bindE (masked_sum probabilites is_profitable) (\<lambda>pop.
     bindE (masked_sum probabilites is_itm) (\<lambda>itm.
     Inr (pop, itm))))"

section \<open>The lattice as the specification describes it\<close>

text \<open>
  The tree parameters for one contract with time to maturity \<open>t\<close>, volatility \<open>sg\<close>,
  rate \<open>rt\<close>, dividend yield \<open>q\<close> and \<open>n\<close> levels.
\<close>

definition spec_dt :: "real \<Rightarrow> nat \<Rightarrow> real" where
  "spec_dt t n = t / real n"

definition spec_u :: "real \<Rightarrow> real \<Rightarrow> nat \<Rightarrow> real" where
  "spec_u sg t n = exp (sg * sqrt (spec_dt t n))"

definition spec_d :: "real \<Rightarrow> real \<Rightarrow> nat \<Rightarrow> real" where
  "spec_d sg t n = 1 / spec_u sg t n"

definition spec_p :: "real \<Rightarrow> real \<Rightarrow> real \<Rightarrow> real \<Rightarrow> nat \<Rightarrow> real" where
  "spec_p rt q sg t n =
     (exp ((rt - q) * spec_dt t n) - spec_d sg t n) / (spec_u sg t n - spec_d sg t n)"

text \<open>The real-world probability of an up-move under the drift \<open>mu\<close>.\<close>

definition spec_p_real :: "real \<Rightarrow> real \<Rightarrow> real \<Rightarrow> nat \<Rightarrow> real" where
  "spec_p_real mu sg t n =
     (exp (mu * spec_dt t n) - spec_d sg t n) / (spec_u sg t n - spec_d sg t n)"

text \<open>
  The asset price at the node with \<open>j\<close> down-moves of level \<open>i\<close>, and the payoff of
  exercising at an asset price \<open>ST\<close>.
\<close>

definition spec_asset :: "real \<Rightarrow> real \<Rightarrow> real \<Rightarrow> nat \<Rightarrow> nat \<Rightarrow> real" where
  "spec_asset S u d i j = S * u ^ (i - j) * d ^ j"

definition spec_payoff :: "string \<Rightarrow> real \<Rightarrow> real \<Rightarrow> real" where
  "spec_payoff knd K ST = (if knd = ''call'' then max (ST - K) 0 else max (K - ST) 0)"

text \<open>
  The value at node \<open>j\<close> after \<open>m\<close> backward steps from the leaves of a tree of \<open>n\<close>
  levels, that is at level \<open>n - m\<close>: the payoff at the leaves; below them the
  discounted expectation \<open>disc * (p * V_up + (1 - p) * V_down)\<close> over the two
  children, and with early exercise its maximum with the payoff at the node.
\<close>

fun spec_node ::
  "bool \<Rightarrow> string \<Rightarrow> real \<Rightarrow> real \<Rightarrow> real \<Rightarrow> real \<Rightarrow> real \<Rightarrow> real \<Rightarrow> nat \<Rightarrow> nat \<Rightarrow> nat
     \<Rightarrow> real" where
  "spec_node early knd S K u d p disc n 0 j = spec_payoff knd K (spec_asset S u d n j)"
| "spec_node early knd S K u d p disc n (Suc m) j =
     (let cont = disc * (p * spec_node early knd S K u d p disc n m j
                         + (1 - p) * spec_node early knd S K u d p disc n m (j + 1))
      in if early then max cont (spec_payoff knd K (spec_asset S u d (n - Suc m) j))
         else cont)"

definition spec_lattice_price ::
  "bool \<Rightarrow> string \<Rightarrow> real \<Rightarrow> real \<Rightarrow> real \<Rightarrow> real \<Rightarrow> real \<Rightarrow> real \<Rightarrow> nat \<Rightarrow> real" where
  "spec_lattice_price early knd S K sg t rt q n =
     spec_node early knd S K (spec_u sg t n) (spec_d sg t n) (spec_p rt q sg t n)
       (exp (- rt * spec_dt t n)) n n 0"

text \<open>
  Batches: the value of an attribute for the \<open>k\<close>-th contract, whether an attribute
  is a batch, whether it is a scalar or a batch of \<open>M\<close> values, and the \<open>k\<close>-th
  contract of a batch as a contract of its own with scalar attributes.
\<close>

fun pick :: "field \<Rightarrow> nat \<Rightarrow> real" where
  "pick (Scalar a) k = a"
| "pick (Batch xs) k = xs ! k"

fun is_batch :: "field \<Rightarrow> bool" where
  "is_batch (Scalar a) = False"
| "is_batch (Batch xs) = True"

fun fits :: "nat \<Rightarrow> field \<Rightarrow> bool" where
  "fits M (Scalar a) = True"
| "fits M (Batch xs) = (length xs = M)"

definition contract_at :: "field Option \<Rightarrow> nat \<Rightarrow> field Option" where
  "contract_at o1 k =
     \<lparr>tau = Scalar (pick (tau o1) k), spot = Scalar (pick (spot o1) k),
      strike = Scalar (pick (strike o1) k), sigma = Scalar (pick (sigma o1) k),
      r = Scalar (pick (r o1) k), dividend = Scalar (pick (dividend o1) k),
      kind = kind o1, region = region o1\<rparr>"

text \<open>
  The lattice price of the \<open>k\<close>-th contract of a batch, by the specification's lattice.
\<close>

definition spec_price_at :: "field Option \<Rightarrow> nat \<Rightarrow> nat \<Rightarrow> real" where
  "spec_price_at o1 n k =
     spec_lattice_price (region o1 = ''us'') (kind o1) (pick (spot o1) k) (pick (strike o1) k)
       (pick (sigma o1) k) (pick (tau o1) k) (pick (r o1) k) (pick (dividend o1) k) n"

text \<open>
  The terminal nodes as the probability module of the specification sees them: the mass
  of the node with \<open>j\<close> down-moves under the binomial distribution with parameters
  \<open>n\<close> and \<open>p_real\<close>, whether its payoff exceeds the lattice price compounded at the
  risk-free rate to maturity, and whether it is in the money.
\<close>

definition spec_mass :: "real \<Rightarrow> real \<Rightarrow> real \<Rightarrow> nat \<Rightarrow> nat \<Rightarrow> real" where
  "spec_mass mu sg t n j = binom_pmf (int j) n (spec_p_real mu sg t n)"

definition spec_profitable ::
  "string \<Rightarrow> string \<Rightarrow> real \<Rightarrow> real \<Rightarrow> real \<Rightarrow> real \<Rightarrow> real \<Rightarrow> real \<Rightarrow> nat \<Rightarrow> nat \<Rightarrow> bool" where
  "spec_profitable rg knd S K sg t rt q n j =
     (spec_payoff knd K (spec_asset S (spec_u sg t n) (spec_d sg t n) n j)
        > spec_lattice_price (rg = ''us'') knd S K sg t rt q n * exp (rt * t))"

definition spec_in_the_money :: "string \<Rightarrow> real \<Rightarrow> real \<Rightarrow> real \<Rightarrow> real \<Rightarrow> nat \<Rightarrow> nat \<Rightarrow> bool" where
  "spec_in_the_money knd S K sg t n j =
     (if knd = ''call'' then spec_asset S (spec_u sg t n) (spec_d sg t n) n j > K
      else spec_asset S (spec_u sg t n) (spec_d sg t n) n j < K)"

text \<open>
  For the proofs: the array \<open>a\<close> has \<open>c\<close> columns, has one row per contract of a batch
  of \<open>M\<close> when \<open>b\<close> holds and a single row otherwise, and read for contract \<open>k\<close> and
  column \<open>j\<close> it holds \<open>g k j\<close>.
\<close>

definition holds :: "nat \<Rightarrow> bool \<Rightarrow> 'a ndarray \<Rightarrow> nat \<Rightarrow> (nat \<Rightarrow> nat \<Rightarrow> 'a) \<Rightarrow> bool" where
  "holds M b a c g =
     (nrows a = (if b then M else 1) \<and> ncols a = c \<and>
      (\<forall>k<M. \<forall>j<c. el a (if b then k else 0) j = g k j))"

section \<open>Construction of contracts\<close>

lemma any_lt_zero_False: "\<not> any_lt_zero x"
  by (simp add: any_lt_zero_def)

lemma Option_init_no_negative_check:
  "Option_init tau0 spot0 strike0 sigma0 r0 div0 type0 region0 =
     (if lower type0 \<noteq> ''call'' \<and> lower type0 \<noteq> ''put''
      then Inl (ValueError ''Invalid Option type'')
      else if lower region0 \<noteq> ''eu'' \<and> lower region0 \<noteq> ''na''
      then Inl (ValueError ''Invalid Option region'')
      else Inr \<lparr>tau = tau0, spot = spot0, strike = strike0, sigma = sigma0, r = r0,
                dividend = div0, kind = lower type0, region = lower region0\<rparr>)"
  by (simp add: Option_init_def any_lt_zero_False Let_def)

lemma lower_literals:
  "lower ''call'' = ''call''" "lower ''put'' = ''put''" "lower ''eu'' = ''eu''"
  "lower ''na'' = ''na''" "lower ''us'' = ''us''" "lower ''US'' = ''us''"
  by code_simp+

text \<open>
  Claim C2 fails on the code: the test \<open>np.any(x) < 0\<close> compares a boolean with zero
  and is never true, so no negative value is rejected. Whatever the numeric attributes
  are, negative or not, scalar or batched, a call with valid type and region yields a
  contract holding them; in particular a time to maturity of \<open>-1\<close> is accepted.
\<close>

theorem Option_init_accepts_negative:
  "Option_init tau0 spot0 strike0 sigma0 r0 div0 ''call'' ''eu'' =
     Inr \<lparr>tau = tau0, spot = spot0, strike = strike0, sigma = sigma0, r = r0,
          dividend = div0, kind = ''call'', region = ''eu''\<rparr>
   \<and> Option_init (Scalar (- 1)) (Scalar 100) (Batch [90, - 95]) (Scalar 0.2) (Scalar 0.02)
        (Scalar 0) ''call'' ''eu'' =
     Inr \<lparr>tau = Scalar (- 1), spot = Scalar 100, strike = Batch [90, - 95], sigma = Scalar 0.2,
          r = Scalar 0.02, dividend = Scalar 0, kind = ''call'', region = ''eu''\<rparr>"
  by (simp add: Option_init_no_negative_check lower_literals)

section \<open>The standard normal distribution function\<close>

lemma N_term_bound: "norm (N_term x n) \<le> \<bar>x\<bar> * (inverse (fact n) * (x\<^sup>2 / 2) ^ n)"
proof -
  have "norm (N_term x n) = \<bar>x\<bar> ^ (2 * n + 1) / (fact n * 2 ^ n * real (2 * n + 1))"
    by (simp add: N_term_def abs_mult power_abs)
  also have "\<dots> \<le> \<bar>x\<bar> ^ (2 * n + 1) / (fact n * 2 ^ n * 1)"
    by (intro divide_left_mono mult_left_mono mult_pos_pos) auto
  also have "\<dots> = \<bar>x\<bar> * (inverse (fact n) * (x\<^sup>2 / 2) ^ n)"
  proof -
    have "\<bar>x\<bar> ^ (2 * n + 1) = \<bar>x\<bar> * (x\<^sup>2) ^ n"
      by (simp add: power_mult)
    then show ?thesis
      by (simp add: power_divide divide_simps)
  qed
  finally show ?thesis .
qed

lemma N_term_summable: "summable (N_term x)"
proof (rule summable_comparison_test')
  show "summable (\<lambda>n. \<bar>x\<bar> * (inverse (fact n) * (x\<^sup>2 / 2) ^ n))"
    by (intro summable_mult summable_exp)
  show "\<And>n. n \<ge> 0 \<Longrightarrow> norm (N_term x n) \<le> \<bar>x\<bar> * (inverse (fact n) * (x\<^sup>2 / 2) ^ n)"
    by (rule N_term_bound)
qed

lemma N_term_minus: "N_term (- x) n = - N_term x n"
  by (simp add: N_term_def)

lemma N_minus: "N (- x) = 1 - N x"
proof -
  have "(\<Sum>n. N_term (- x) n) = - (\<Sum>n. N_term x n)"
    by (simp add: N_term_minus suminf_minus [OF N_term_summable])
  then show ?thesis
    by (simp add: N_def algebra_simps)
qed

lemma dN_pos: "0 < dN x"
  by (simp add: dN_def)

lemma N_abs_mono:
  assumes "0 \<le> x" "x \<le> 1"
  shows "N_abs x (Suc n) \<le> N_abs x n"
proof -
  have p: "x ^ (2 * Suc n + 1) \<le> x ^ (2 * n + 1)"
    using assms by (intro power_decreasing) auto
  have "(fact n :: real) \<le> fact (Suc n)"
    by (rule fact_mono) simp
  moreover have "(2::real) ^ n \<le> 2 ^ Suc n" by simp
  ultimately have "(fact n :: real) * 2 ^ n \<le> fact (Suc n) * 2 ^ Suc n"
    by (intro mult_mono) auto
  then have q: "(fact n :: real) * 2 ^ n * real (2 * n + 1)
      \<le> fact (Suc n) * 2 ^ Suc n * real (2 * Suc n + 1)"
    by (intro mult_mono) auto
  have pos: "0 < (fact n :: real) * 2 ^ n * real (2 * n + 1)"
    by (intro mult_pos_pos) auto
  show ?thesis
    unfolding N_abs_def using assms by (intro frac_le p q pos) auto
qed

lemma N_abs_tendsto: "N_abs x \<longlonglongrightarrow> 0"
proof -
  have "N_term x \<longlonglongrightarrow> 0"
    by (rule summable_LIMSEQ_zero [OF N_term_summable])
  then have "(\<lambda>n. \<bar>N_term x n\<bar>) \<longlonglongrightarrow> 0"
    by (simp add: tendsto_rabs_zero_iff)
  moreover have "\<bar>N_abs x n\<bar> = \<bar>N_term x n\<bar>" for n
    by (simp add: N_abs_def N_term_def abs_mult)
  ultimately have "(\<lambda>n. \<bar>N_abs x n\<bar>) \<longlonglongrightarrow> 0" by simp
  then show ?thesis by (simp add: tendsto_rabs_zero_iff)
qed

lemma N_lower:
  assumes "0 \<le> x" "x \<le> 1"
  shows "1 / 2 + 1 / sqrt (2 * pi) * (x - x ^ 3 / 6) \<le> N x"
proof -
  have nn: "0 \<le> N_abs x n" for n
    using assms by (simp add: N_abs_def)
  have "(\<Sum>i<2*1. (- 1) ^ i * N_abs x i) \<le> (\<Sum>i. (- 1) ^ i * N_abs x i)"
    by (rule summable_Leibniz'(2) [OF N_abs_tendsto nn N_abs_mono [OF assms]])
  moreover have "(\<lambda>i. (- 1) ^ i * N_abs x i) = N_term x"
    by (rule ext) (simp add: N_abs_def N_term_def)
  moreover have "(\<Sum>i<2*1. (- 1) ^ i * N_abs x i) = x - x ^ 3 / 6"
    by (simp add: N_abs_def lessThan_Suc numeral_2_eq_2 power3_eq_cube)
  ultimately have "x - x ^ 3 / 6 \<le> (\<Sum>n. N_term x n)" by simp
  then have "1 / sqrt (2 * pi) * (x - x ^ 3 / 6) \<le> 1 / sqrt (2 * pi) * (\<Sum>n. N_term x n)"
    by (intro mult_left_mono) auto
  then show ?thesis by (simp add: N_def)
qed

lemma N_half_gt: "1 / 2 < N (1 / 2)"
proof -
  have "1 / 2 + 1 / sqrt (2 * pi) * (1 / 2 - (1 / 2) ^ 3 / 6) \<le> N (1 / 2)"
    by (rule N_lower) auto
  moreover have "0 < 1 / sqrt (2 * pi) * (1 / 2 - (1 / 2) ^ 3 / 6 :: real)"
    by (intro mult_pos_pos) (auto simp: power3_eq_cube)
  ultimately show ?thesis by linarith
qed

section \<open>Broadcasting\<close>

lemma holds_cong:
  assumes "holds M b a c g" and "\<And>k j. k < M \<Longrightarrow> j < c \<Longrightarrow> g k j = g' k j"
  shows "holds M b a c g'"
  using assms by (simp add: holds_def)

lemma holds_flag:
  assumes "holds M b a c g" and "b = b'"
  shows "holds M b' a c g"
  using assms by simp

lemma holds_ufunc1:
  assumes "holds M b a c g"
  shows "holds M b (ufunc1 f a) c (\<lambda>k j. f (g k j))"
  using assms by (simp add: holds_def ufunc1_def)

lemma ndim_ufunc1: "ndim (ufunc1 f a) = ndim a"
  by (simp add: ufunc1_def)

lemma ndim_broadcast: "ndim (broadcast f a b) = max (ndim a) (ndim b)"
  by (simp add: broadcast_def)

lemma ufunc2_ok:
  assumes "holds M b1 a1 c1 g" and "holds M b2 a2 c2 h" and "compat c1 c2"
  shows "ufunc2 f a1 a2 = Inr (broadcast f a1 a2)"
  using assms by (auto simp add: holds_def ufunc2_def compat_def)

lemma holds_broadcast:
  assumes a: "holds M b1 a1 c1 g" and b: "holds M b2 a2 c2 h" and c: "compat c1 c2"
  shows "holds M (b1 \<or> b2) (broadcast f a1 a2) (bdim c1 c2)
           (\<lambda>k j. f (g k (if c1 = 1 then 0 else j)) (h k (if c2 = 1 then 0 else j)))"
proof -
  have r: "nrows (broadcast f a1 a2) = (if b1 \<or> b2 then M else 1)"
    using a b by (auto simp add: holds_def broadcast_def bdim_def)
  have cc: "ncols (broadcast f a1 a2) = bdim c1 c2"
    using a b by (simp add: holds_def broadcast_def)
  have e: "el (broadcast f a1 a2) (if b1 \<or> b2 then k else 0) j =
        f (g k (if c1 = 1 then 0 else j)) (h k (if c2 = 1 then 0 else j))"
    if k: "k < M" and j: "j < bdim c1 c2" for k j
  proof -
    have j1: "(if c1 = 1 then 0 else j) < c1"
      using j by (auto simp add: bdim_def)
    have j2: "(if c2 = 1 then 0 else j) < c2"
      using j c by (auto simp add: bdim_def compat_def split: if_splits)
    have i1: "el a1 (if nrows a1 = 1 then 0 else (if b1 \<or> b2 then k else 0)) (if c1 = 1 then 0 else j)
          = el a1 (if b1 then k else 0) (if c1 = 1 then 0 else j)"
      using a k by (auto simp add: holds_def)
    have i2: "el a2 (if nrows a2 = 1 then 0 else (if b1 \<or> b2 then k else 0)) (if c2 = 1 then 0 else j)
          = el a2 (if b2 then k else 0) (if c2 = 1 then 0 else j)"
      using b k by (auto simp add: holds_def)
    have g1: "el a1 (if b1 then k else 0) (if c1 = 1 then 0 else j) = g k (if c1 = 1 then 0 else j)"
      using a k j1 by (simp add: holds_def)
    have g2: "el a2 (if b2 then k else 0) (if c2 = 1 then 0 else j) = h k (if c2 = 1 then 0 else j)"
      using b k j2 by (simp add: holds_def)
    have "el (broadcast f a1 a2) (if b1 \<or> b2 then k else 0) j =
        f (el a1 (if nrows a1 = 1 then 0 else (if b1 \<or> b2 then k else 0)) (if c1 = 1 then 0 else j))
          (el a2 (if nrows a2 = 1 then 0 else (if b1 \<or> b2 then k else 0)) (if c2 = 1 then 0 else j))"
      using a b by (simp add: broadcast_def holds_def)
    then show ?thesis by (simp only: i1 i2 g1 g2)
  qed
  show ?thesis
    unfolding holds_def using r cc e by blast
qed

lemma ufunc2_holds:
  assumes "holds M b1 a1 c1 g" and "holds M b2 a2 c2 h" and "compat c1 c2"
    and "\<And>k j. k < M \<Longrightarrow> j < bdim c1 c2 \<Longrightarrow>
           f (g k (if c1 = 1 then 0 else j)) (h k (if c2 = 1 then 0 else j)) = w k j"
    and "b = (b1 \<or> b2)" and "c = bdim c1 c2"
  shows "\<exists>a. ufunc2 f a1 a2 = Inr a \<and> ndim a = max (ndim a1) (ndim a2) \<and> holds M b a c w"
proof -
  have "holds M (b1 \<or> b2) (broadcast f a1 a2) (bdim c1 c2)
           (\<lambda>k j. f (g k (if c1 = 1 then 0 else j)) (h k (if c2 = 1 then 0 else j)))"
    by (rule holds_broadcast [OF assms(1-3)])
  then have "holds M b (broadcast f a1 a2) c w"
    using assms(4-6) by (simp add: holds_def)
  then show ?thesis
    using ufunc2_ok [OF assms(1-3)] ndim_broadcast by blast
qed

lemma holds_asarray:
  assumes "\<not> is_batch x"
  shows "holds M False (asarray x) 1 (\<lambda>k j. pick x k)"
  using assms by (cases x) (simp_all add: holds_def scalar_def)

lemma holds_to_col:
  assumes "fits M x"
  shows "holds M (is_batch x) (to_col x) 1 (\<lambda>k j. pick x k)"
  using assms by (cases x) (simp_all add: holds_def to_col_def scalar_def array1_def)

lemma holds_arange_row: "holds M False (arange_row n) n (\<lambda>k j. int j)"
  by (simp add: holds_def arange_row_def)

lemma ndim_arange_row: "ndim (arange_row n) = 2"
  by (simp add: arange_row_def)

lemma holds_drop_last:
  assumes "holds M b a (Suc c) g" and "ndim a \<noteq> 0"
  shows "\<exists>a'. drop_last a = Inr a' \<and> ndim a' = ndim a \<and> holds M b a' c g"
  using assms by (simp add: holds_def drop_last_def)

lemma holds_drop_first:
  assumes "holds M b a (Suc c) g" and "ndim a \<noteq> 0"
  shows "\<exists>a'. drop_first a = Inr a' \<and> ndim a' = ndim a \<and> holds M b a' c (\<lambda>k j. g k (j + 1))"
  using assms by (simp add: holds_def drop_first_def)

section \<open>The lattice pricer computes the specification's lattice\<close>

lemma asset_row_holds:
  assumes S: "holds M False s 1 (\<lambda>k j. S k)"
    and U: "holds M b u 1 (\<lambda>k j. uk k)"
    and D: "holds M b d 1 (\<lambda>k j. dk k)"
  shows "\<exists>a. asset_row s u d i = Inr a \<and> 2 \<le> ndim a
           \<and> holds M b a (Suc i) (\<lambda>k j. spec_asset (S k) (uk k) (dk k) i j)"
proof -
  have J: "holds M False (ufunc1 (\<lambda>k. int i - k) (arange_row (i + 1))) (Suc i)
             (\<lambda>k j. int i - int j)"
    using holds_ufunc1 [OF holds_arange_row [where M = M and n = "i + 1"],
        where f = "\<lambda>k. int i - k"] by simp
  obtain up where up: "ufunc2 (\<lambda>x k. x powi k) u (ufunc1 (\<lambda>k. int i - k) (arange_row (i + 1))) = Inr up"
    "2 \<le> ndim up" "holds M b up (Suc i) (\<lambda>k j. uk k ^ (i - j))"
  proof -
    have "\<exists>a. ufunc2 (\<lambda>x k. x powi k) u (ufunc1 (\<lambda>k. int i - k) (arange_row (i + 1))) = Inr a
        \<and> ndim a = max (ndim u) (ndim (ufunc1 (\<lambda>k. int i - k) (arange_row (i + 1))))
        \<and> holds M b a (Suc i) (\<lambda>k j. uk k ^ (i - j))"
    proof (rule ufunc2_holds [OF U J])
      show "compat 1 (Suc i)" by (simp add: compat_def)
      show "b = (b \<or> False)" by simp
      show "Suc i = bdim 1 (Suc i)" by (simp add: bdim_def)
      show "uk k powi (int i - int (if Suc i = 1 then 0 else j)) = uk k ^ (i - j)"
        if "k < M" "j < bdim 1 (Suc i)" for k j
      proof -
        have "j \<le> i" using that(2) by (simp add: bdim_def)
        then have "int i - int j = int (i - j)" by simp
        moreover have "(if Suc i = 1 then 0 else j) = j" using \<open>j \<le> i\<close> by auto
        ultimately show ?thesis by (simp only: power_int_of_nat)
      qed
    qed
    then show ?thesis
      using that by (auto simp add: ndim_ufunc1 ndim_arange_row)
  qed
  obtain su where su: "ufunc2 (*) s up = Inr su" "2 \<le> ndim su"
    "holds M b su (Suc i) (\<lambda>k j. S k * uk k ^ (i - j))"
  proof -
    have "\<exists>a. ufunc2 (*) s up = Inr a \<and> ndim a = max (ndim s) (ndim up)
        \<and> holds M b a (Suc i) (\<lambda>k j. S k * uk k ^ (i - j))"
      by (rule ufunc2_holds [OF S up(3)]) (auto simp add: compat_def bdim_def)
    then show ?thesis using that up(2) by auto
  qed
  obtain dn where dn: "ufunc2 (\<lambda>x k. x powi k) d (arange_row (i + 1)) = Inr dn"
    "holds M b dn (Suc i) (\<lambda>k j. dk k ^ j)"
  proof -
    have "holds M False (arange_row (i + 1)) (Suc i) (\<lambda>k j. int j)"
      using holds_arange_row [where M = M and n = "i + 1"] by simp
    then have "\<exists>a. ufunc2 (\<lambda>x k. x powi k) d (arange_row (i + 1)) = Inr a
        \<and> ndim a = max (ndim d) (ndim (arange_row (i + 1)))
        \<and> holds M b a (Suc i) (\<lambda>k j. dk k ^ j)"
      by (rule ufunc2_holds [OF D]) (auto simp add: compat_def bdim_def)
    then show ?thesis using that by auto
  qed
  have "\<exists>a. ufunc2 (*) su dn = Inr a \<and> ndim a = max (ndim su) (ndim dn)
      \<and> holds M b a (Suc i) (\<lambda>k j. spec_asset (S k) (uk k) (dk k) i j)"
    by (rule ufunc2_holds [OF su(3) dn(2)]) (auto simp add: compat_def bdim_def spec_asset_def)
  then obtain a where a: "ufunc2 (*) su dn = Inr a" "ndim a = max (ndim su) (ndim dn)"
    "holds M b a (Suc i) (\<lambda>k j. spec_asset (S k) (uk k) (dk k) i j)" by blast
  have "2 \<le> ndim a"
    using a(2) su(2) by simp
  then show ?thesis
    using up(1) su(1) dn(1) a(1,3) by (simp add: asset_row_def bindE_def Let_def)
qed

lemma exercise_holds:
  assumes K: "fits M (strike o1)"
    and A: "holds M ba a c (\<lambda>k j. ak k j)" and nd: "2 \<le> ndim a"
  shows "\<exists>x. (if kind o1 = ''call'' then ufunc2 (-) a (to_col (strike o1))
               else ufunc2 (-) (to_col (strike o1)) a) = Inr x
           \<and> 2 \<le> ndim x
           \<and> holds M (ba \<or> is_batch (strike o1)) (ufunc1 (\<lambda>x. max x 0) x) c
               (\<lambda>k j. spec_payoff (kind o1) (pick (strike o1) k) (ak k j))"
proof (cases "kind o1 = ''call''")
  case True
  have "\<exists>x. ufunc2 (-) a (to_col (strike o1)) = Inr x
      \<and> ndim x = max (ndim a) (ndim (to_col (strike o1)))
      \<and> holds M (ba \<or> is_batch (strike o1)) x c (\<lambda>k j. ak k j - pick (strike o1) k)"
    by (rule ufunc2_holds [OF A holds_to_col [OF K]]) (auto simp add: compat_def bdim_def)
  then obtain x where x: "ufunc2 (-) a (to_col (strike o1)) = Inr x"
    "ndim x = max (ndim a) (ndim (to_col (strike o1)))"
    "holds M (ba \<or> is_batch (strike o1)) x c (\<lambda>k j. ak k j - pick (strike o1) k)" by blast
  have "holds M (ba \<or> is_batch (strike o1)) (ufunc1 (\<lambda>x. max x 0) x) c
      (\<lambda>k j. spec_payoff (kind o1) (pick (strike o1) k) (ak k j))"
    using holds_ufunc1 [OF x(3), where f = "\<lambda>x. max x 0"] True by (simp add: spec_payoff_def)
  then show ?thesis using x(1,2) nd True by simp
next
  case False
  have "\<exists>x. ufunc2 (-) (to_col (strike o1)) a = Inr x
      \<and> ndim x = max (ndim (to_col (strike o1))) (ndim a)
      \<and> holds M (ba \<or> is_batch (strike o1)) x c (\<lambda>k j. pick (strike o1) k - ak k j)"
    by (rule ufunc2_holds [OF holds_to_col [OF K] A]) (auto simp add: compat_def bdim_def)
  then obtain x where x: "ufunc2 (-) (to_col (strike o1)) a = Inr x"
    "ndim x = max (ndim (to_col (strike o1))) (ndim a)"
    "holds M (ba \<or> is_batch (strike o1)) x c (\<lambda>k j. pick (strike o1) k - ak k j)" by blast
  have "holds M (ba \<or> is_batch (strike o1)) (ufunc1 (\<lambda>x. max x 0) x) c
      (\<lambda>k j. spec_payoff (kind o1) (pick (strike o1) k) (ak k j))"
    using holds_ufunc1 [OF x(3), where f = "\<lambda>x. max x 0"] False by (simp add: spec_payoff_def)
  then show ?thesis using x(1,2) nd False by simp
qed

lemma backward_step_holds:
  assumes R: "\<not> is_batch (r o1)" and Sp: "\<not> is_batch (spot o1)" and K: "fits M (strike o1)"
    and DT: "holds M bdt dt 1 (\<lambda>k j. dtk k)"
    and U: "holds M bu u 1 (\<lambda>k j. uk k)"
    and D: "holds M bu d 1 (\<lambda>k j. dk k)"
    and P: "holds M bp p 1 (\<lambda>k j. pk k)"
    and OV: "holds M b ov (Suc (Suc i)) v" and nd: "2 \<le> ndim ov"
    and flags: "bdt \<longrightarrow> b" "bu \<longrightarrow> b" "bp \<longrightarrow> b" "is_batch (strike o1) \<longrightarrow> b"
  shows "\<exists>ov'. backward_step o1 dt u d p i ov = Inr ov' \<and> 2 \<le> ndim ov'
     \<and> holds M b ov' (Suc i)
         (\<lambda>k j. let cont = exp (- pick (r o1) k * dtk k)
                             * (pk k * v k j + (1 - pk k) * v k (j + 1))
                 in if region o1 = ''us''
                    then max cont (spec_payoff (kind o1) (pick (strike o1) k)
                                     (spec_asset (pick (spot o1) k) (uk k) (dk k) i j))
                    else cont)"
proof -
  have mr: "holds M False (ufunc1 uminus (asarray (r o1))) 1 (\<lambda>k j. - pick (r o1) k)"
    by (rule holds_ufunc1 [OF holds_asarray [OF R]])
  have "\<exists>a. ufunc2 (*) (ufunc1 uminus (asarray (r o1))) dt = Inr a
      \<and> ndim a = max (ndim (ufunc1 uminus (asarray (r o1)))) (ndim dt)
      \<and> holds M bdt a 1 (\<lambda>k j. - pick (r o1) k * dtk k)"
    by (rule ufunc2_holds [OF mr DT]) (auto simp add: compat_def bdim_def)
  then obtain rdt where rdt: "ufunc2 (*) (ufunc1 uminus (asarray (r o1))) dt = Inr rdt"
    "holds M bdt rdt 1 (\<lambda>k j. - pick (r o1) k * dtk k)" by blast
  have n0: "ndim ov \<noteq> 0" using nd by simp
  obtain ups where ups: "drop_last ov = Inr ups" "ndim ups = ndim ov"
    "holds M b ups (Suc i) v"
    using holds_drop_last [OF OV n0] by blast
  have "\<exists>a. ufunc2 (*) p ups = Inr a \<and> ndim a = max (ndim p) (ndim ups)
      \<and> holds M b a (Suc i) (\<lambda>k j. pk k * v k j)"
    by (rule ufunc2_holds [OF P ups(3)]) (use flags in \<open>auto simp add: compat_def bdim_def\<close>)
  then obtain pu where pu: "ufunc2 (*) p ups = Inr pu" "ndim pu = max (ndim p) (ndim ups)"
    "holds M b pu (Suc i) (\<lambda>k j. pk k * v k j)" by blast
  obtain downs where downs: "drop_first ov = Inr downs" "ndim downs = ndim ov"
    "holds M b downs (Suc i) (\<lambda>k j. v k (j + 1))"
    using holds_drop_first [OF OV n0] by blast
  have q: "holds M bp (ufunc1 (\<lambda>x. 1 - x) p) 1 (\<lambda>k j. 1 - pk k)"
    by (rule holds_ufunc1 [OF P])
  have "\<exists>a. ufunc2 (*) (ufunc1 (\<lambda>x. 1 - x) p) downs = Inr a
      \<and> ndim a = max (ndim (ufunc1 (\<lambda>x. 1 - x) p)) (ndim downs)
      \<and> holds M b a (Suc i) (\<lambda>k j. (1 - pk k) * v k (j + 1))"
    by (rule ufunc2_holds [OF q downs(3)]) (use flags in \<open>auto simp add: compat_def bdim_def\<close>)
  then obtain qd where qd: "ufunc2 (*) (ufunc1 (\<lambda>x. 1 - x) p) downs = Inr qd"
    "holds M b qd (Suc i) (\<lambda>k j. (1 - pk k) * v k (j + 1))" by blast
  have "\<exists>a. ufunc2 (+) pu qd = Inr a \<and> ndim a = max (ndim pu) (ndim qd)
      \<and> holds M b a (Suc i) (\<lambda>k j. pk k * v k j + (1 - pk k) * v k (j + 1))"
    by (rule ufunc2_holds [OF pu(3) qd(2)]) (auto simp add: compat_def bdim_def)
  then obtain ev where ev: "ufunc2 (+) pu qd = Inr ev" "ndim ev = max (ndim pu) (ndim qd)"
    "holds M b ev (Suc i) (\<lambda>k j. pk k * v k j + (1 - pk k) * v k (j + 1))" by blast
  have er: "holds M bdt (ufunc1 exp rdt) 1 (\<lambda>k j. exp (- pick (r o1) k * dtk k))"
    by (rule holds_ufunc1 [OF rdt(2)])
  have "\<exists>a. ufunc2 (*) (ufunc1 exp rdt) ev = Inr a
      \<and> ndim a = max (ndim (ufunc1 exp rdt)) (ndim ev)
      \<and> holds M b a (Suc i)
          (\<lambda>k j. exp (- pick (r o1) k * dtk k) * (pk k * v k j + (1 - pk k) * v k (j + 1)))"
    by (rule ufunc2_holds [OF er ev(3)]) (use flags in \<open>auto simp add: compat_def bdim_def\<close>)
  then obtain cont where cont: "ufunc2 (*) (ufunc1 exp rdt) ev = Inr cont"
    "ndim cont = max (ndim (ufunc1 exp rdt)) (ndim ev)"
    "holds M b cont (Suc i)
       (\<lambda>k j. exp (- pick (r o1) k * dtk k) * (pk k * v k j + (1 - pk k) * v k (j + 1)))"
    by blast
  have ndc: "2 \<le> ndim cont"
    using cont(2) ev(2) pu(2) ups(2) nd by simp
  have run: "backward_step o1 dt u d p i ov =
      (if region o1 = ''us'' then
         bindE (asset_row (asarray (spot o1)) u d i) (\<lambda>current_assets.
         bindE (if kind o1 = ''call'' then ufunc2 (-) current_assets (to_col (strike o1))
                else ufunc2 (-) (to_col (strike o1)) current_assets) (\<lambda>diff.
         ufunc2 max cont (ufunc1 (\<lambda>x. max x 0) diff)))
       else Inr cont)"
    by (simp add: backward_step_def bindE_def rdt(1) ups(1) pu(1) downs(1) qd(1) ev(1) cont(1))
  show ?thesis
  proof (cases "region o1 = ''us''")
    case False
    then show ?thesis using run cont(3) ndc by (simp add: Let_def)
  next
    case True
    obtain ca where ca: "asset_row (asarray (spot o1)) u d i = Inr ca" "2 \<le> ndim ca"
      "holds M bu ca (Suc i) (\<lambda>k j. spec_asset (pick (spot o1) k) (uk k) (dk k) i j)"
      using asset_row_holds [OF holds_asarray [OF Sp] U D] by blast
    obtain x where x: "(if kind o1 = ''call'' then ufunc2 (-) ca (to_col (strike o1))
               else ufunc2 (-) (to_col (strike o1)) ca) = Inr x"
      "holds M (bu \<or> is_batch (strike o1)) (ufunc1 (\<lambda>x. max x 0) x) (Suc i)
         (\<lambda>k j. spec_payoff (kind o1) (pick (strike o1) k)
                  (spec_asset (pick (spot o1) k) (uk k) (dk k) i j))"
      using exercise_holds [OF K ca(3) ca(2)] by blast
    have "\<exists>a. ufunc2 max cont (ufunc1 (\<lambda>x. max x 0) x) = Inr a
        \<and> ndim a = max (ndim cont) (ndim (ufunc1 (\<lambda>x. max x 0) x))
        \<and> holds M b a (Suc i)
            (\<lambda>k j. max (exp (- pick (r o1) k * dtk k) * (pk k * v k j + (1 - pk k) * v k (j + 1)))
                 (spec_payoff (kind o1) (pick (strike o1) k)
                    (spec_asset (pick (spot o1) k) (uk k) (dk k) i j)))"
      by (rule ufunc2_holds [OF cont(3) x(2)]) (use flags in \<open>auto simp add: compat_def bdim_def\<close>)
    then obtain a where a: "ufunc2 max cont (ufunc1 (\<lambda>x. max x 0) x) = Inr a"
      "ndim a = max (ndim cont) (ndim (ufunc1 (\<lambda>x. max x 0) x))"
      "holds M b a (Suc i)
            (\<lambda>k j. max (exp (- pick (r o1) k * dtk k) * (pk k * v k j + (1 - pk k) * v k (j + 1)))
                 (spec_payoff (kind o1) (pick (strike o1) k)
                    (spec_asset (pick (spot o1) k) (uk k) (dk k) i j)))" by blast
    have "2 \<le> ndim a" using a(2) ndc by simp
    moreover have "backward_step o1 dt u d p i ov = Inr a"
      using run True ca(1) x(1) a(1) by (simp add: bindE_def)
    ultimately show ?thesis using a(3) True by (simp add: Let_def)
  qed
qed

lemma backward_holds:
  assumes R: "\<not> is_batch (r o1)" and Sp: "\<not> is_batch (spot o1)" and K: "fits M (strike o1)"
    and DT: "holds M bdt dt 1 (\<lambda>k j. dtk k)"
    and U: "holds M bu u 1 (\<lambda>k j. uk k)"
    and D: "holds M bu d 1 (\<lambda>k j. dk k)"
    and P: "holds M bp p 1 (\<lambda>k j. pk k)"
    and flags: "bdt \<longrightarrow> b" "bu \<longrightarrow> b" "bp \<longrightarrow> b" "is_batch (strike o1) \<longrightarrow> b"
    and lev: "mb + m = n"
    and OV: "holds M b ov (Suc m)
       (\<lambda>k j. spec_node (region o1 = ''us'') (kind o1) (pick (spot o1) k) (pick (strike o1) k)
                 (uk k) (dk k) (pk k) (exp (- pick (r o1) k * dtk k)) n mb j)"
    and nd: "2 \<le> ndim ov"
  shows "\<exists>ov'. backward o1 dt u d p m ov = Inr ov' \<and> 2 \<le> ndim ov'
     \<and> holds M b ov' 1
         (\<lambda>k j. spec_node (region o1 = ''us'') (kind o1) (pick (spot o1) k) (pick (strike o1) k)
                   (uk k) (dk k) (pk k) (exp (- pick (r o1) k * dtk k)) n n j)"
  using lev OV nd
proof (induction m arbitrary: ov mb)
  case 0
  then show ?case by simp
next
  case (Suc m)
  let ?node = "\<lambda>mb k j. spec_node (region o1 = ''us'') (kind o1) (pick (spot o1) k)
                 (pick (strike o1) k) (uk k) (dk k) (pk k) (exp (- pick (r o1) k * dtk k)) n mb j"
  obtain ov1 where ov1: "backward_step o1 dt u d p m ov = Inr ov1" "2 \<le> ndim ov1"
    "holds M b ov1 (Suc m)
         (\<lambda>k j. let cont = exp (- pick (r o1) k * dtk k)
                             * (pk k * ?node mb k j + (1 - pk k) * ?node mb k (j + 1))
                 in if region o1 = ''us''
                    then max cont (spec_payoff (kind o1) (pick (strike o1) k)
                                     (spec_asset (pick (spot o1) k) (uk k) (dk k) m j))
                    else cont)"
    using backward_step_holds [OF R Sp K DT U D P Suc.prems(2) Suc.prems(3) flags] by blast
  have m: "n - Suc mb = m" using Suc.prems(1) by simp
  have "holds M b ov1 (Suc m) (?node (Suc mb))"
    by (rule holds_cong [OF ov1(3)]) (simp add: Let_def m)
  moreover have "Suc mb + m = n" using Suc.prems(1) by simp
  ultimately have "\<exists>ov'. backward o1 dt u d p m ov1 = Inr ov' \<and> 2 \<le> ndim ov'
     \<and> holds M b ov' 1 (?node n)"
    using Suc.IH [of "Suc mb" ov1] ov1(2) by blast
  then show ?case using ov1(1) by (simp add: bindE_def)
qed

lemma flatten_column:
  assumes "holds M b a 1 g"
  shows "flatten a = map (\<lambda>i. el a i 0) [0..<(if b then M else 1)]"
proof -
  have "ncols a = 1" "nrows a = (if b then M else 1)"
    using assms by (simp_all add: holds_def)
  then show ?thesis
    by (simp add: flatten_def concat_map_singleton)
qed

lemma price_pipeline:
  assumes T: "fits M (tau o1)" and K: "fits M (strike o1)" and Sg: "fits M (sigma o1)"
    and Sp: "\<not> is_batch (spot o1)" and R: "\<not> is_batch (r o1)" and Q: "\<not> is_batch (dividend o1)"
    and kd: "kind o1 = ''call'' \<or> kind o1 = ''put''"
  shows "\<exists>ov. bopm_option_price o1 n = Inr (Array (flatten ov))
     \<and> holds M (is_batch (tau o1) \<or> is_batch (strike o1) \<or> is_batch (sigma o1)) ov 1
         (\<lambda>k j. spec_price_at o1 n k)"
proof -
  let ?bt = "is_batch (tau o1)" and ?bk = "is_batch (strike o1)" and ?bs = "is_batch (sigma o1)"
  let ?b = "?bt \<or> ?bk \<or> ?bs"
  let ?t = "\<lambda>k. pick (tau o1) k" and ?sg = "\<lambda>k. pick (sigma o1) k"
  let ?rt = "\<lambda>k. pick (r o1) k" and ?q = "\<lambda>k. pick (dividend o1) k"
  let ?dt = "ufunc1 (\<lambda>x. x / real n) (to_col (tau o1))"
  have dt: "holds M ?bt ?dt 1 (\<lambda>k j. spec_dt (?t k) n)"
    using holds_ufunc1 [OF holds_to_col [OF T], where f = "\<lambda>x. x / real n"]
    by (simp add: spec_dt_def)
  have sq: "holds M ?bt (ufunc1 sqrt ?dt) 1 (\<lambda>k j. sqrt (spec_dt (?t k) n))"
    by (rule holds_ufunc1 [OF dt])
  have "\<exists>a. ufunc2 (*) (to_col (sigma o1)) (ufunc1 sqrt ?dt) = Inr a
      \<and> ndim a = max (ndim (to_col (sigma o1))) (ndim (ufunc1 sqrt ?dt))
      \<and> holds M (?bs \<or> ?bt) a 1 (\<lambda>k j. ?sg k * sqrt (spec_dt (?t k) n))"
    by (rule ufunc2_holds [OF holds_to_col [OF Sg] sq]) (auto simp add: compat_def bdim_def)
  then obtain sd where sd: "ufunc2 (*) (to_col (sigma o1)) (ufunc1 sqrt ?dt) = Inr sd"
    "holds M (?bs \<or> ?bt) sd 1 (\<lambda>k j. ?sg k * sqrt (spec_dt (?t k) n))" by blast
  let ?u = "ufunc1 exp sd"
  let ?d = "ufunc1 (\<lambda>x. 1 / x) ?u"
  have u: "holds M (?bs \<or> ?bt) ?u 1 (\<lambda>k j. spec_u (?sg k) (?t k) n)"
    using holds_ufunc1 [OF sd(2), where f = exp] by (simp add: spec_u_def)
  have d: "holds M (?bs \<or> ?bt) ?d 1 (\<lambda>k j. spec_d (?sg k) (?t k) n)"
    using holds_ufunc1 [OF u, where f = "\<lambda>x. 1 / x"] by (simp add: spec_d_def)
  have "\<exists>a. ufunc2 (-) (asarray (r o1)) (asarray (dividend o1)) = Inr a
      \<and> ndim a = max (ndim (asarray (r o1))) (ndim (asarray (dividend o1)))
      \<and> holds M False a 1 (\<lambda>k j. ?rt k - ?q k)"
    by (rule ufunc2_holds [OF holds_asarray [OF R] holds_asarray [OF Q]])
      (auto simp add: compat_def bdim_def)
  then obtain rq where rq: "ufunc2 (-) (asarray (r o1)) (asarray (dividend o1)) = Inr rq"
    "holds M False rq 1 (\<lambda>k j. ?rt k - ?q k)" by blast
  have "\<exists>a. ufunc2 (*) rq ?dt = Inr a \<and> ndim a = max (ndim rq) (ndim ?dt)
      \<and> holds M ?bt a 1 (\<lambda>k j. (?rt k - ?q k) * spec_dt (?t k) n)"
    by (rule ufunc2_holds [OF rq(2) dt]) (auto simp add: compat_def bdim_def)
  then obtain rqdt where rqdt: "ufunc2 (*) rq ?dt = Inr rqdt"
    "holds M ?bt rqdt 1 (\<lambda>k j. (?rt k - ?q k) * spec_dt (?t k) n)" by blast
  have ex: "holds M ?bt (ufunc1 exp rqdt) 1 (\<lambda>k j. exp ((?rt k - ?q k) * spec_dt (?t k) n))"
    by (rule holds_ufunc1 [OF rqdt(2)])
  have "\<exists>a. ufunc2 (-) (ufunc1 exp rqdt) ?d = Inr a
      \<and> ndim a = max (ndim (ufunc1 exp rqdt)) (ndim ?d)
      \<and> holds M (?bs \<or> ?bt) a 1
          (\<lambda>k j. exp ((?rt k - ?q k) * spec_dt (?t k) n) - spec_d (?sg k) (?t k) n)"
    by (rule ufunc2_holds [OF ex d]) (auto simp add: compat_def bdim_def)
  then obtain num where num: "ufunc2 (-) (ufunc1 exp rqdt) ?d = Inr num"
    "holds M (?bs \<or> ?bt) num 1
          (\<lambda>k j. exp ((?rt k - ?q k) * spec_dt (?t k) n) - spec_d (?sg k) (?t k) n)" by blast
  have "\<exists>a. ufunc2 (-) ?u ?d = Inr a \<and> ndim a = max (ndim ?u) (ndim ?d)
      \<and> holds M (?bs \<or> ?bt) a 1 (\<lambda>k j. spec_u (?sg k) (?t k) n - spec_d (?sg k) (?t k) n)"
    by (rule ufunc2_holds [OF u d]) (auto simp add: compat_def bdim_def)
  then obtain den where den: "ufunc2 (-) ?u ?d = Inr den"
    "holds M (?bs \<or> ?bt) den 1 (\<lambda>k j. spec_u (?sg k) (?t k) n - spec_d (?sg k) (?t k) n)"
    by blast
  have "\<exists>a. ufunc2 (/) num den = Inr a \<and> ndim a = max (ndim num) (ndim den)
      \<and> holds M (?bs \<or> ?bt) a 1 (\<lambda>k j. spec_p (?rt k) (?q k) (?sg k) (?t k) n)"
    by (rule ufunc2_holds [OF num(2) den(2)]) (auto simp add: compat_def bdim_def spec_p_def)
  then obtain p where p: "ufunc2 (/) num den = Inr p"
    "holds M (?bs \<or> ?bt) p 1 (\<lambda>k j. spec_p (?rt k) (?q k) (?sg k) (?t k) n)" by blast
  obtain ap where ap: "asset_row (asarray (spot o1)) ?u ?d n = Inr ap" "2 \<le> ndim ap"
    "holds M (?bs \<or> ?bt) ap (Suc n)
       (\<lambda>k j. spec_asset (pick (spot o1) k) (spec_u (?sg k) (?t k) n) (spec_d (?sg k) (?t k) n) n j)"
    using asset_row_holds [OF holds_asarray [OF Sp] u d] by blast
  obtain x where x: "(if kind o1 = ''call'' then ufunc2 (-) ap (to_col (strike o1))
               else ufunc2 (-) (to_col (strike o1)) ap) = Inr x"
    "2 \<le> ndim x"
    "holds M ((?bs \<or> ?bt) \<or> ?bk) (ufunc1 (\<lambda>x. max x 0) x) (Suc n)
       (\<lambda>k j. spec_payoff (kind o1) (pick (strike o1) k)
          (spec_asset (pick (spot o1) k) (spec_u (?sg k) (?t k) n) (spec_d (?sg k) (?t k) n) n j))"
    using exercise_holds [OF K ap(3) ap(2)] by blast
  have x': "(if kind o1 = ''call'' then ufunc2 (-) ap (to_col (strike o1))
             else if kind o1 = ''put'' then ufunc2 (-) (to_col (strike o1)) ap
             else Inl (UnboundLocalError ''option_values'')) = Inr x"
    using x(1) kd by auto
  have ov0: "holds M ((?bs \<or> ?bt) \<or> ?bk) (ufunc1 (\<lambda>x. max x 0) x) (Suc n)
       (\<lambda>k j. spec_node (region o1 = ''us'') (kind o1) (pick (spot o1) k) (pick (strike o1) k)
                 (spec_u (?sg k) (?t k) n) (spec_d (?sg k) (?t k) n)
                 (spec_p (?rt k) (?q k) (?sg k) (?t k) n)
                 (exp (- pick (r o1) k * spec_dt (?t k) n)) n 0 j)"
    using x(3) by simp
  have nd0: "2 \<le> ndim (ufunc1 (\<lambda>x. max x 0) x)"
    using x(2) by (simp add: ndim_ufunc1)
  have "\<exists>ov'. backward o1 ?dt ?u ?d p n (ufunc1 (\<lambda>x. max x 0) x) = Inr ov' \<and> 2 \<le> ndim ov'
     \<and> holds M ((?bs \<or> ?bt) \<or> ?bk) ov' 1
         (\<lambda>k j. spec_node (region o1 = ''us'') (kind o1) (pick (spot o1) k) (pick (strike o1) k)
                 (spec_u (?sg k) (?t k) n) (spec_d (?sg k) (?t k) n)
                 (spec_p (?rt k) (?q k) (?sg k) (?t k) n)
                 (exp (- pick (r o1) k * spec_dt (?t k) n)) n n j)"
    by (rule backward_holds [OF R Sp K dt u d p(2) _ _ _ _ _ ov0 nd0]) auto
  then obtain ov where ov: "backward o1 ?dt ?u ?d p n (ufunc1 (\<lambda>x. max x 0) x) = Inr ov"
    "2 \<le> ndim ov"
    "holds M ((?bs \<or> ?bt) \<or> ?bk) ov 1
         (\<lambda>k j. spec_node (region o1 = ''us'') (kind o1) (pick (spot o1) k) (pick (strike o1) k)
                 (spec_u (?sg k) (?t k) n) (spec_d (?sg k) (?t k) n)
                 (spec_p (?rt k) (?q k) (?sg k) (?t k) n)
                 (exp (- pick (r o1) k * spec_dt (?t k) n)) n n j)" by blast
  have "holds M ?b ov 1 (\<lambda>k j. spec_price_at o1 n k)"
  proof (rule holds_flag [OF holds_cong [OF ov(3)]])
    show "((?bs \<or> ?bt) \<or> ?bk) = ?b" by auto
    show "spec_node (region o1 = ''us'') (kind o1) (pick (spot o1) k) (pick (strike o1) k)
                 (spec_u (?sg k) (?t k) n) (spec_d (?sg k) (?t k) n)
                 (spec_p (?rt k) (?q k) (?sg k) (?t k) n)
                 (exp (- pick (r o1) k * spec_dt (?t k) n)) n n j = spec_price_at o1 n k"
      if "k < M" "j < 1" for k j
      using that by (simp add: spec_price_at_def spec_lattice_price_def)
  qed
  moreover have "bopm_option_price o1 n = Inr (Array (flatten ov))"
    using ov(2)
    by (simp add: bopm_option_price_def Let_def bindE_def sd(1) rq(1) rqdt(1) num(1) den(1)
        p(1) ap(1) x' ov(1))
  ultimately show ?thesis by blast
qed

lemma bopm_option_price_closed_form:
  assumes T: "fits M (tau o1)" and K: "fits M (strike o1)" and Sg: "fits M (sigma o1)"
    and Sp: "\<not> is_batch (spot o1)" and R: "\<not> is_batch (r o1)" and Q: "\<not> is_batch (dividend o1)"
    and kd: "kind o1 = ''call'' \<or> kind o1 = ''put''"
  shows "bopm_option_price o1 n =
     Inr (Array (map (spec_price_at o1 n)
        [0..<(if is_batch (tau o1) \<or> is_batch (strike o1) \<or> is_batch (sigma o1) then M else 1)]))"
proof (cases "is_batch (tau o1) \<or> is_batch (strike o1) \<or> is_batch (sigma o1)")
  case True
  obtain ov where ov: "bopm_option_price o1 n = Inr (Array (flatten ov))"
    "holds M (is_batch (tau o1) \<or> is_batch (strike o1) \<or> is_batch (sigma o1)) ov 1
         (\<lambda>k j. spec_price_at o1 n k)"
    using price_pipeline [OF T K Sg Sp R Q kd] by blast
  have "flatten ov = map (\<lambda>i. el ov i 0) [0..<M]"
    using flatten_column [OF ov(2)] True by simp
  also have "\<dots> = map (spec_price_at o1 n) [0..<M]"
    using ov(2) True by (simp add: holds_def)
  finally show ?thesis using ov(1) True by simp
next
  case False
  have f1: "fits 1 (tau o1)" "fits 1 (strike o1)" "fits 1 (sigma o1)"
  proof -
    show "fits 1 (tau o1)" using False by (cases "tau o1") simp_all
    show "fits 1 (strike o1)" using False by (cases "strike o1") simp_all
    show "fits 1 (sigma o1)" using False by (cases "sigma o1") simp_all
  qed
  obtain ov where ov: "bopm_option_price o1 n = Inr (Array (flatten ov))"
    "holds 1 (is_batch (tau o1) \<or> is_batch (strike o1) \<or> is_batch (sigma o1)) ov 1
         (\<lambda>k j. spec_price_at o1 n k)"
    using price_pipeline [OF f1 Sp R Q kd] by blast
  have "flatten ov = map (\<lambda>i. el ov i 0) [0..<1]"
    using flatten_column [OF ov(2)] False by simp
  also have "\<dots> = map (spec_price_at o1 n) [0..<1]"
    using ov(2) False by (simp add: holds_def)
  finally show ?thesis using ov(1) False by simp
qed

lemma bopm_option_price_scalar:
  assumes "knd = ''call'' \<or> knd = ''put''"
  shows "bopm_option_price \<lparr>tau = Scalar t, spot = Scalar S, strike = Scalar K, sigma = Scalar sg,
        r = Scalar rt, dividend = Scalar q, kind = knd, region = rg\<rparr> n
     = Inr (Array [spec_lattice_price (rg = ''us'') knd S K sg t rt q n])"
  using assms
  by (subst bopm_option_price_closed_form [where M = 1]) (simp_all add: spec_price_at_def)

text \<open>
  Claim C6. For a European contract with scalar attributes, positive volatility and
  time to maturity (where no operation of the pricer leaves the real numbers) and
  \<open>n \<ge> 1\<close> levels the lattice pricer returns the value of the specification's lattice: \<open>dt = tau / n\<close>,
  \<open>u = exp(sigma sqrt(dt))\<close>, \<open>d = 1 / u\<close>, \<open>p = (exp((r - q) dt) - d) / (u - d)\<close>, the
  leaf with \<open>j\<close> down-moves at asset price \<open>S u^(n - j) d^j\<close> with payoff
  \<open>max(S_T - K, 0)\<close> for a call and \<open>max(K - S_T, 0)\<close> for a put, and each backward
  step \<open>exp(-r dt) (p V_up + (1 - p) V_down)\<close>; for \<open>n = 1\<close> this is the one-step
  formula on the two leaf payoffs. The value is returned as the only entry of an array.
\<close>

theorem lattice_price_european_scalar:
  assumes "1 \<le> n" and "knd = ''call'' \<or> knd = ''put''" and "0 < sg" and "0 < t"
  shows "bopm_option_price \<lparr>tau = Scalar t, spot = Scalar S, strike = Scalar K, sigma = Scalar sg,
        r = Scalar rt, dividend = Scalar q, kind = knd, region = ''eu''\<rparr> n
       = Inr (Array [spec_lattice_price False knd S K sg t rt q n])
     \<and> bopm_option_price \<lparr>tau = Scalar t, spot = Scalar S, strike = Scalar K, sigma = Scalar sg,
        r = Scalar rt, dividend = Scalar q, kind = knd, region = ''eu''\<rparr> 1
       = Inr (Array [exp (- rt * (t / 1))
                      * (spec_p rt q sg t 1 * spec_payoff knd K (S * spec_u sg t 1)
                         + (1 - spec_p rt q sg t 1) * spec_payoff knd K (S * spec_d sg t 1))])"
  using assms(2)
  by (simp add: bopm_option_price_scalar spec_lattice_price_def spec_asset_def spec_dt_def Let_def)

theorem lattice_price_european_scalar_witness:
  "(1::nat) \<le> 1 \<and> (0::real) < 0.2 \<and> (0::real) < 1
   \<and> bopm_option_price \<lparr>tau = Scalar 1, spot = Scalar 100, strike = Scalar 100,
        sigma = Scalar 0.2, r = Scalar 0.02, dividend = Scalar 0, kind = ''call'',
        region = ''eu''\<rparr> 1
     = Inr (Array [exp (- 0.02 * (1 / 1))
                    * (spec_p 0.02 0 0.2 1 1 * spec_payoff ''call'' 100 (100 * spec_u 0.2 1 1)
                       + (1 - spec_p 0.02 0 0.2 1 1)
                         * spec_payoff ''call'' 100 (100 * spec_d 0.2 1 1))])"
  using lattice_price_european_scalar [where n = 1 and knd = "''call''" and t = 1 and S = 100
      and K = 100 and sg = "0.2" and rt = "0.02" and q = 0, THEN conjunct2]
  by simp

lemma contract_at_scalar:
  "\<not> is_batch (tau (contract_at o1 k))" "\<not> is_batch (strike (contract_at o1 k))"
  "\<not> is_batch (sigma (contract_at o1 k))" "\<not> is_batch (spot (contract_at o1 k))"
  "\<not> is_batch (r (contract_at o1 k))" "\<not> is_batch (dividend (contract_at o1 k))"
  "fits 1 (tau (contract_at o1 k))" "fits 1 (strike (contract_at o1 k))"
  "fits 1 (sigma (contract_at o1 k))" "kind (contract_at o1 k) = kind o1"
  by (simp_all add: contract_at_def)

lemma price_contract_at:
  assumes "kind o1 = ''call'' \<or> kind o1 = ''put''"
  shows "bopm_option_price (contract_at o1 k) n = Inr (Array [spec_price_at o1 n k])"
proof -
  have kd: "kind (contract_at o1 k) = ''call'' \<or> kind (contract_at o1 k) = ''put''"
    using assms by (simp add: contract_at_scalar)
  have "bopm_option_price (contract_at o1 k) n =
      Inr (Array (map (spec_price_at (contract_at o1 k) n)
        [0..<(if is_batch (tau (contract_at o1 k)) \<or> is_batch (strike (contract_at o1 k))
                 \<or> is_batch (sigma (contract_at o1 k)) then 1 else 1)]))"
    by (rule bopm_option_price_closed_form [OF contract_at_scalar(7,8,9,4,5,6) kd])
  then have "bopm_option_price (contract_at o1 k) n =
      Inr (Array [spec_price_at (contract_at o1 k) n 0])"
    by simp
  moreover have "spec_price_at (contract_at o1 k) n 0 = spec_price_at o1 n k"
    by (simp add: spec_price_at_def contract_at_def)
  ultimately show ?thesis by simp
qed

text \<open>
  Claim C7, as amended. Let time to maturity, strike and volatility each be a scalar or
  a vector of length \<open>M \<ge> 1\<close>, at least one of them a vector, and let spot, rate and
  dividend yield be scalars. For \<open>n \<ge> 1\<close> the lattice pricer returns a vector of
  length \<open>M\<close> whose \<open>k\<close>-th entry is the value it returns for the \<open>k\<close>-th contract
  priced on its own, in the order of the input.
\<close>

theorem batched_lattice_price:
  assumes "1 \<le> M" and "1 \<le> n"
    and "fits M (tau o1)" and "fits M (strike o1)" and "fits M (sigma o1)"
    and "is_batch (tau o1) \<or> is_batch (strike o1) \<or> is_batch (sigma o1)"
    and "\<not> is_batch (spot o1)" and "\<not> is_batch (r o1)" and "\<not> is_batch (dividend o1)"
    and "kind o1 = ''call'' \<or> kind o1 = ''put''"
  shows "\<exists>vs. bopm_option_price o1 n = Inr (Array vs) \<and> length vs = M
           \<and> (\<forall>k<M. bopm_option_price (contract_at o1 k) n = Inr (Array [vs ! k]))"
proof -
  have "bopm_option_price o1 n = Inr (Array (map (spec_price_at o1 n) [0..<M]))"
    using bopm_option_price_closed_form [OF assms(3,4,5,7,8,9,10), of n] assms(6) by simp
  moreover have "bopm_option_price (contract_at o1 k) n
      = Inr (Array [map (spec_price_at o1 n) [0..<M] ! k])" if "k < M" for k
    using price_contract_at [OF assms(10)] that by simp
  ultimately show ?thesis by simp
qed

text \<open>
  Three calls with strikes 85, 90 and 95 on spot 100, one year, volatility 0.2 and rate
  0.02, priced as one batch.
\<close>

theorem batched_lattice_price_witness:
  "\<exists>vs. bopm_option_price \<lparr>tau = Scalar 1, spot = Scalar 100, strike = Batch [85, 90, 95],
            sigma = Scalar 0.2, r = Scalar 0.02, dividend = Scalar 0, kind = ''call'',
            region = ''eu''\<rparr> 100 = Inr (Array vs)
     \<and> length vs = 3
     \<and> bopm_option_price \<lparr>tau = Scalar 1, spot = Scalar 100, strike = Scalar 85,
            sigma = Scalar 0.2, r = Scalar 0.02, dividend = Scalar 0, kind = ''call'',
            region = ''eu''\<rparr> 100 = Inr (Array [vs ! 0])
     \<and> bopm_option_price \<lparr>tau = Scalar 1, spot = Scalar 100, strike = Scalar 90,
            sigma = Scalar 0.2, r = Scalar 0.02, dividend = Scalar 0, kind = ''call'',
            region = ''eu''\<rparr> 100 = Inr (Array [vs ! 1])
     \<and> bopm_option_price \<lparr>tau = Scalar 1, spot = Scalar 100, strike = Scalar 95,
            sigma = Scalar 0.2, r = Scalar 0.02, dividend = Scalar 0, kind = ''call'',
            region = ''eu''\<rparr> 100 = Inr (Array [vs ! 2])"
proof -
  let ?o = "\<lparr>tau = Scalar 1, spot = Scalar 100, strike = Batch [85, 90, 95],
            sigma = Scalar 0.2, r = Scalar 0.02, dividend = Scalar 0, kind = ''call'',
            region = ''eu''\<rparr>"
  obtain vs where vs: "bopm_option_price ?o 100 = Inr (Array vs)" "length vs = 3"
    "\<forall>k<3. bopm_option_price (contract_at ?o k) 100 = Inr (Array [vs ! k])"
    using batched_lattice_price [where M = 3 and n = 100 and ?o1.0 = ?o] by auto
  have "bopm_option_price (contract_at ?o 0) 100 = Inr (Array [vs ! 0])"
    "bopm_option_price (contract_at ?o 1) 100 = Inr (Array [vs ! 1])"
    "bopm_option_price (contract_at ?o 2) 100 = Inr (Array [vs ! 2])"
    using vs(3) by simp_all
  then show ?thesis
    using vs(1,2) by (auto simp add: contract_at_def)
qed

text \<open>
  A batch of three spot prices is not broadcast: the spot is used as it is, a vector
  of shape \<open>(3,)\<close>, against the \<open>(1, 101)\<close> row of the tree, and numpy raises.
\<close>

theorem batched_spot_counterexample:
  "bopm_option_price \<lparr>tau = Scalar 1, spot = Batch [100, 110, 120], strike = Scalar 90,
      sigma = Scalar 0.2, r = Scalar 0.02, dividend = Scalar 0, kind = ''call'',
      region = ''eu''\<rparr> 100
   = Inl (ValueError ''operands could not be broadcast together'')"
  by (simp add: bopm_option_price_def bindE_def ufunc2_def ufunc1_def broadcast_def compat_def
      bdim_def to_col_def scalar_def array1_def asset_row_def arange_row_def Let_def)

section \<open>Early exercise and the region of a contract\<close>

lemma backward_step_region:
  assumes "region o1 \<noteq> ''us''"
  shows "backward_step (o1\<lparr>region := ''eu''\<rparr>) dt u d p i ov = backward_step o1 dt u d p i ov"
  using assms by (simp add: backward_step_def)

lemma backward_region:
  assumes "region o1 \<noteq> ''us''"
  shows "backward (o1\<lparr>region := ''eu''\<rparr>) dt u d p i ov = backward o1 dt u d p i ov"
proof (induction i arbitrary: ov)
  case 0
  show ?case by simp
next
  case (Suc i)
  have "backward (o1\<lparr>region := ''eu''\<rparr>) dt u d p i = backward o1 dt u d p i"
    by (rule ext) (rule Suc.IH)
  then show ?case
    by (simp add: backward_step_region [OF assms])
qed

lemma bopm_option_price_region:
  assumes "region o1 \<noteq> ''us''"
  shows "bopm_option_price (o1\<lparr>region := ''eu''\<rparr>) n = bopm_option_price o1 n"
  by (simp add: bopm_option_price_def backward_region [OF assms] cong: if_cong)

text \<open>
  A put on spot 1 with strike 100, volatility 0.2, rate 0.02 and one year to maturity on a
  tree of one level: without early exercise the root is worth \<open>100 exp(-0.02) - 1\<close>,
  with early exercise it is worth the exercise value 99.
\<close>

lemma one_step_put:
  fixes S K sg rt :: real
  assumes sg: "0 < sg" and up: "S * exp sg \<le> K" and S: "0 \<le> S"
  shows "spec_lattice_price False ''put'' S K sg 1 rt 0 1 = K * exp (- rt) - S"
    and "spec_lattice_price True ''put'' S K sg 1 rt 0 1 = max (K * exp (- rt) - S) (K - S)"
proof -
  let ?u = "exp sg" and ?d = "1 / exp sg"
  let ?p = "(exp rt - ?d) / (?u - ?d)"
  have u1: "1 < ?u" using sg by simp
  have d1: "?d < 1" using u1 by simp
  have ud: "?u - ?d \<noteq> 0" using u1 d1 by linarith
  have mean: "?p * ?u + (1 - ?p) * ?d = exp rt"
  proof -
    have lin: "p * u + (1 - p) * d = d + p * (u - d)" for p u d :: real
      by (simp add: algebra_simps)
    have "?p * (?u - ?d) = exp rt - ?d" using ud by simp
    then show ?thesis by (simp only: lin)
  qed
  have "S * ?d \<le> S * ?u"
    using S u1 d1 by (intro mult_left_mono) linarith+
  then have dn: "S * ?d \<le> K" using up by linarith
  have cont: "exp (- rt) * (?p * (K - S * ?u) + (1 - ?p) * (K - S * ?d)) = K * exp (- rt) - S"
  proof -
    have lin: "p * (K - S * u) + (1 - p) * (K - S * d) = K - S * (p * u + (1 - p) * d)"
      for p u d :: real
      by (simp add: algebra_simps)
    have "?p * (K - S * ?u) + (1 - ?p) * (K - S * ?d) = K - S * (?p * ?u + (1 - ?p) * ?d)"
      by (rule lin)
    also have "\<dots> = K - S * exp rt" by (simp only: mean)
    finally have "exp (- rt) * (?p * (K - S * ?u) + (1 - ?p) * (K - S * ?d))
        = exp (- rt) * (K - S * exp rt)" by simp
    also have "\<dots> = K * exp (- rt) - S * (exp (- rt) * exp rt)" by (simp add: algebra_simps)
    also have "\<dots> = K * exp (- rt) - S" by (simp add: exp_add [symmetric])
    finally show ?thesis .
  qed
  have pu: "max (K - S * ?u) 0 = K - S * ?u" using up by simp
  have pd: "max (K - S * ?d) 0 = K - S * ?d" using dn by simp
  have pu': "max (K - S * ?u) 0 = K - S * ?u" by (rule pu)
  show "spec_lattice_price False ''put'' S K sg 1 rt 0 1 = K * exp (- rt) - S"
    using cont pu pd
    by (simp add: spec_lattice_price_def spec_asset_def spec_payoff_def spec_p_def spec_u_def
        spec_d_def spec_dt_def Let_def)
  have "0 \<le> K - S"
  proof -
    have "S * 1 \<le> S * ?u" using S u1 by (intro mult_left_mono) linarith+
    then show ?thesis using up by simp
  qed
  then have p0: "max (K - S) 0 = K - S" by simp
  show "spec_lattice_price True ''put'' S K sg 1 rt 0 1 = max (K * exp (- rt) - S) (K - S)"
    using cont pu pd p0
    by (simp add: spec_lattice_price_def spec_asset_def spec_payoff_def spec_p_def spec_u_def
        spec_d_def spec_dt_def Let_def)
qed

lemma exp_fifth_le: "1 * exp (1 / 5 :: real) \<le> 100"
proof -
  have "exp (1 / 5 :: real) \<le> exp 1" by simp
  also have "\<dots> \<le> 3" by (rule exp_le)
  finally show ?thesis by simp
qed

lemma deep_put_values:
  "spec_lattice_price False ''put'' 1 100 (1 / 5) 1 (1 / 50) 0 1 = 100 * exp (- (1 / 50)) - 1"
  "spec_lattice_price True ''put'' 1 100 (1 / 5) 1 (1 / 50) 0 1 = 99"
proof -
  show "spec_lattice_price False ''put'' 1 100 (1 / 5) 1 (1 / 50) 0 1 = 100 * exp (- (1 / 50)) - 1"
    using one_step_put(1) [where S = 1 and K = 100 and sg = "1 / 5" and rt = "1 / 50"] exp_fifth_le
    by simp
  have "exp (- (1 / 50) :: real) < 1" by simp
  then have "max (100 * exp (- (1 / 50)) - 1) (100 - 1 :: real) = 99" by simp
  then show "spec_lattice_price True ''put'' 1 100 (1 / 5) 1 (1 / 50) 0 1 = 99"
    using one_step_put(2) [where S = 1 and K = 100 and sg = "1 / 5" and rt = "1 / 50"] exp_fifth_le
    by simp
qed

text \<open>
  Claim C1 fails on the code. The constructor accepts the regions \<open>eu\<close> and \<open>na\<close>
  and rejects \<open>us\<close>, the value that its documentation gives for American exercise and
  the only one for which the lattice pricer compares with the exercise value. So no
  contract that was constructed is priced with early exercise: a put of region \<open>us\<close>
  is refused, and a put of region \<open>na\<close> is priced as the European put; for the put
  above that is \<open>100 exp(-0.02) - 1\<close> where early exercise gives 99.
\<close>

theorem american_exercise_unreachable:
  "Option_init tau0 spot0 strike0 sigma0 r0 div0 ''put'' ''us''
     = Inl (ValueError ''Invalid Option region'')
   \<and> Option_init tau0 spot0 strike0 sigma0 r0 div0 ''put'' ''na''
     = Inr \<lparr>tau = tau0, spot = spot0, strike = strike0, sigma = sigma0, r = r0,
            dividend = div0, kind = ''put'', region = ''na''\<rparr>
   \<and> bopm_option_price \<lparr>tau = tau0, spot = spot0, strike = strike0, sigma = sigma0, r = r0,
            dividend = div0, kind = ''put'', region = ''na''\<rparr> n
     = bopm_option_price \<lparr>tau = tau0, spot = spot0, strike = strike0, sigma = sigma0, r = r0,
            dividend = div0, kind = ''put'', region = ''eu''\<rparr> n
   \<and> bopm_option_price \<lparr>tau = Scalar 1, spot = Scalar 1, strike = Scalar 100,
            sigma = Scalar (1 / 5), r = Scalar (1 / 50), dividend = Scalar 0, kind = ''put'',
            region = ''na''\<rparr> 1
     = Inr (Array [100 * exp (- (1 / 50)) - 1])
   \<and> spec_lattice_price True ''put'' 1 100 (1 / 5) 1 (1 / 50) 0 1 = 99"
proof -
  let ?o = "\<lparr>tau = tau0, spot = spot0, strike = strike0, sigma = sigma0, r = r0,
            dividend = div0, kind = ''put'', region = ''na''\<rparr>"
  have "region ?o \<noteq> ''us''" by simp
  then have "bopm_option_price (?o\<lparr>region := ''eu''\<rparr>) n = bopm_option_price ?o n"
    by (rule bopm_option_price_region)
  moreover have "bopm_option_price \<lparr>tau = Scalar 1, spot = Scalar 1, strike = Scalar 100,
            sigma = Scalar (1 / 5), r = Scalar (1 / 50), dividend = Scalar 0, kind = ''put'',
            region = ''na''\<rparr> 1
     = Inr (Array [100 * exp (- (1 / 50)) - 1])"
    using bopm_option_price_scalar [where knd = "''put''" and rg = "''na''" and t = 1
        and S = 1 and K = 100 and sg = "1 / 5" and rt = "1 / 50" and q = 0 and n = 1]
      deep_put_values(1)
    by simp
  ultimately show ?thesis
    using deep_put_values(2)
    by (simp add: Option_init_no_negative_check lower_literals)
qed

section \<open>The node probabilities of the lattice\<close>

lemma binom_pmf_sum: "(\<Sum>j<Suc n. binom_pmf (int j) n p) = 1"
proof -
  have "(\<Sum>j<Suc n. binom_pmf (int j) n p) = (\<Sum>j\<le>n. real (n choose j) * p ^ j * (1 - p) ^ (n - j))"
    unfolding lessThan_Suc_atMost by (rule sum.cong) (simp_all add: binom_pmf_def)
  also have "\<dots> = (p + (1 - p)) ^ n"
    by (simp only: binomial_ring)
  finally show ?thesis by simp
qed

lemma masked_sum_row:
  assumes "ndim a = 1" and "ndim m = 1" and "nrows a = 1" and "nrows m = 1"
    and "ncols a = c" and "ncols m = c"
  shows "masked_sum a m = Inr (\<Sum>j<c. if el m 0 j then el a 0 j else 0)"
proof -
  have r: "nrows a = Suc 0" using assms(3) by simp
  have "(\<Sum>i<nrows a. \<Sum>j<ncols a. if el m i j then el a i j else 0)
      = (\<Sum>j<c. if el m 0 j then el a 0 j else 0)"
    unfolding r assms(5) by simp
  then show ?thesis
    using assms by (simp add: masked_sum_def)
qed

lemma masked_sum_complement:
  "(\<Sum>j<c. if m j then (a j :: real) else 0) + (\<Sum>j<c. if \<not> m j then a j else 0) = (\<Sum>j<c. a j)"
proof -
  have "(\<Sum>j<c. if m j then a j else 0) + (\<Sum>j<c. if \<not> m j then a j else 0)
      = (\<Sum>j<c. (if m j then a j else 0) + (if \<not> m j then a j else 0))"
    by (simp only: sum.distrib)
  also have "\<dots> = (\<Sum>j<c. a j)"
    by (rule sum.cong) simp_all
  finally show ?thesis .
qed

lemma holds_scalar: "holds M False (scalar a) 1 (\<lambda>k j. a)"
  by (simp add: holds_def scalar_def)

lemma holds_arange: "holds M False (arange n) n (\<lambda>k j. int j)"
  by (simp add: holds_def arange_def)

lemma holds_array1_single: "holds M False (array1 [v]) 1 (\<lambda>k j. v)"
  by (simp add: holds_def array1_def)

lemma ndim_sources:
  "ndim (scalar a) = 0" "ndim (asarray (Scalar x)) = 0" "ndim (arange n) = 1"
  "ndim (array1 xs) = 1"
  by (simp_all add: scalar_def arange_def array1_def)

lemma prob_nodes_scalar:
  assumes n: "1 \<le> n" and kd: "knd = ''call'' \<or> knd = ''put''"
  shows "\<exists>pr prof itm.
     prob_nodes \<lparr>tau = Scalar t, spot = Scalar S, strike = Scalar K, sigma = Scalar sg,
        r = Scalar rt, dividend = Scalar q, kind = knd, region = rg\<rparr> mu n = Inr (pr, prof, itm)
     \<and> ndim pr = 1 \<and> ndim prof = 1 \<and> ndim itm = 1
     \<and> holds 1 False pr (Suc n) (\<lambda>k j. binom_pmf (int j) n (spec_p_real mu sg t n))
     \<and> holds 1 False prof (Suc n)
          (\<lambda>k j. spec_payoff knd K (spec_asset S (spec_u sg t n) (spec_d sg t n) n j)
                   > spec_lattice_price (rg = ''us'') knd S K sg t rt q n * exp (rt * t))
     \<and> holds 1 False itm (Suc n)
          (\<lambda>k j. if knd = ''call'' then spec_asset S (spec_u sg t n) (spec_d sg t n) n j > K
                  else spec_asset S (spec_u sg t n) (spec_d sg t n) n j < K)"
proof -
  let ?o = "\<lparr>tau = Scalar t, spot = Scalar S, strike = Scalar K, sigma = Scalar sg,
        r = Scalar rt, dividend = Scalar q, kind = knd, region = rg\<rparr>"
  let ?v = "spec_lattice_price (rg = ''us'') knd S K sg t rt q n"
  let ?A = "\<lambda>j. spec_asset S (spec_u sg t n) (spec_d sg t n) n j"
  have price: "bopm_option_price ?o n = Inr (Array [?v])"
    by (rule bopm_option_price_scalar [OF kd])
  let ?dt = "scalar (t / real n)"
  have dt: "holds 1 False ?dt 1 (\<lambda>k j. spec_dt t n)"
    using holds_scalar [where M = 1 and a = "t / real n"] by (simp add: spec_dt_def)
  have sq: "holds 1 False (ufunc1 sqrt ?dt) 1 (\<lambda>k j. sqrt (spec_dt t n))"
    by (rule holds_ufunc1 [OF dt])
  have sgm: "holds 1 False (asarray (Scalar sg)) 1 (\<lambda>k j. sg)"
    using holds_asarray [where x = "Scalar sg" and M = 1] by simp
  have spt: "holds 1 False (asarray (Scalar S)) 1 (\<lambda>k j. S)"
    using holds_asarray [where x = "Scalar S" and M = 1] by simp
  have stk: "holds 1 False (asarray (Scalar K)) 1 (\<lambda>k j. K)"
    using holds_asarray [where x = "Scalar K" and M = 1] by simp
  have rat: "holds 1 False (asarray (Scalar rt)) 1 (\<lambda>k j. rt)"
    using holds_asarray [where x = "Scalar rt" and M = 1] by simp
  have tt: "holds 1 False (asarray (Scalar t)) 1 (\<lambda>k j. t)"
    using holds_asarray [where x = "Scalar t" and M = 1] by simp
  have "\<exists>a. ufunc2 (*) (asarray (Scalar sg)) (ufunc1 sqrt ?dt) = Inr a
      \<and> ndim a = max (ndim (asarray (Scalar sg))) (ndim (ufunc1 sqrt ?dt))
      \<and> holds 1 False a 1 (\<lambda>k j. sg * sqrt (spec_dt t n))"
    by (rule ufunc2_holds [OF sgm sq]) (auto simp add: compat_def bdim_def)
  then obtain sd where sd: "ufunc2 (*) (asarray (Scalar sg)) (ufunc1 sqrt ?dt) = Inr sd"
    "ndim sd = 0" "holds 1 False sd 1 (\<lambda>k j. sg * sqrt (spec_dt t n))"
    by (auto simp add: ndim_sources ndim_ufunc1)
  let ?u = "ufunc1 exp sd"
  let ?d = "ufunc1 (\<lambda>x. 1 / x) ?u"
  let ?j = "arange (Suc n)"
  have u: "holds 1 False ?u 1 (\<lambda>k j. spec_u sg t n)"
    using holds_ufunc1 [OF sd(3), where f = exp] by (simp add: spec_u_def)
  have d: "holds 1 False ?d 1 (\<lambda>k j. spec_d sg t n)"
    using holds_ufunc1 [OF u, where f = "\<lambda>x. 1 / x"] by (simp add: spec_d_def)
  have ndu: "ndim ?u = 0" "ndim ?d = 0" using sd(2) by (simp_all add: ndim_ufunc1)
  have j: "holds 1 False ?j (Suc n) (\<lambda>k j. int j)"
    using holds_arange [where M = 1 and n = "Suc n"] by simp
  have nj: "holds 1 False (ufunc1 (\<lambda>k. int n - k) ?j) (Suc n) (\<lambda>k j. int n - int j)"
    by (rule holds_ufunc1 [OF j])
  have "\<exists>a. ufunc2 (\<lambda>x k. x powi k) ?u (ufunc1 (\<lambda>k. int n - k) ?j) = Inr a
      \<and> ndim a = max (ndim ?u) (ndim (ufunc1 (\<lambda>k. int n - k) ?j))
      \<and> holds 1 False a (Suc n) (\<lambda>k j. spec_u sg t n ^ (n - j))"
  proof (rule ufunc2_holds [OF u nj])
    show "compat 1 (Suc n)" by (simp add: compat_def)
    show "False = (False \<or> False)" by simp
    show "Suc n = bdim 1 (Suc n)" by (simp add: bdim_def)
    show "spec_u sg t n powi (int n - int (if Suc n = 1 then 0 else j)) = spec_u sg t n ^ (n - j)"
      if "k < 1" "j < bdim 1 (Suc n)" for k j
    proof -
      have "j \<le> n" using that(2) by (simp add: bdim_def)
      then have "int n - int j = int (n - j)" by simp
      moreover have "(if Suc n = 1 then 0 else j) = j" using \<open>j \<le> n\<close> by auto
      ultimately show ?thesis by (simp only: power_int_of_nat)
    qed
  qed
  then obtain up where up: "ufunc2 (\<lambda>x k. x powi k) ?u (ufunc1 (\<lambda>k. int n - k) ?j) = Inr up"
    "ndim up = 1" "holds 1 False up (Suc n) (\<lambda>k j. spec_u sg t n ^ (n - j))"
    by (auto simp add: sd(2) ndim_sources ndim_ufunc1)
  have "\<exists>a. ufunc2 (*) (asarray (Scalar S)) up = Inr a
      \<and> ndim a = max (ndim (asarray (Scalar S))) (ndim up)
      \<and> holds 1 False a (Suc n) (\<lambda>k j. S * spec_u sg t n ^ (n - j))"
    by (rule ufunc2_holds [OF spt up(3)]) (auto simp add: compat_def bdim_def)
  then obtain su where su: "ufunc2 (*) (asarray (Scalar S)) up = Inr su"
    "ndim su = 1" "holds 1 False su (Suc n) (\<lambda>k j. S * spec_u sg t n ^ (n - j))"
    by (auto simp add: up(2) ndim_sources)
  have "\<exists>a. ufunc2 (\<lambda>x k. x powi k) ?d ?j = Inr a
      \<and> ndim a = max (ndim ?d) (ndim ?j)
      \<and> holds 1 False a (Suc n) (\<lambda>k j. spec_d sg t n ^ j)"
    by (rule ufunc2_holds [OF d j]) (auto simp add: compat_def bdim_def)
  then obtain dn where dn: "ufunc2 (\<lambda>x k. x powi k) ?d ?j = Inr dn"
    "ndim dn = 1" "holds 1 False dn (Suc n) (\<lambda>k j. spec_d sg t n ^ j)"
    by (auto simp add: sd(2) ndim_sources ndim_ufunc1)
  have "\<exists>a. ufunc2 (*) su dn = Inr a \<and> ndim a = max (ndim su) (ndim dn)
      \<and> holds 1 False a (Suc n) (\<lambda>k j. ?A j)"
    by (rule ufunc2_holds [OF su(3) dn(3)]) (auto simp add: compat_def bdim_def spec_asset_def)
  then obtain fs where fs: "ufunc2 (*) su dn = Inr fs" "ndim fs = 1"
    "holds 1 False fs (Suc n) (\<lambda>k j. ?A j)"
    by (auto simp add: su(2) dn(2))
  have "\<exists>a. (if knd = ''call'' then ufunc2 (\<lambda>x y. x > y) fs (asarray (Scalar K))
            else ufunc2 (\<lambda>x y. x < y) fs (asarray (Scalar K))) = Inr a
      \<and> ndim a = max (ndim fs) (ndim (asarray (Scalar K)))
      \<and> holds 1 False a (Suc n) (\<lambda>k j. if knd = ''call'' then ?A j > K else ?A j < K)"
  proof (cases "knd = ''call''")
    case True
    have "\<exists>a. ufunc2 (\<lambda>x y. x > y) fs (asarray (Scalar K)) = Inr a
      \<and> ndim a = max (ndim fs) (ndim (asarray (Scalar K)))
      \<and> holds 1 False a (Suc n) (\<lambda>k j. if knd = ''call'' then ?A j > K else ?A j < K)"
      by (rule ufunc2_holds [OF fs(3) stk]) (auto simp add: compat_def bdim_def True)
    then show ?thesis using True by simp
  next
    case False
    have "\<exists>a. ufunc2 (\<lambda>x y. x < y) fs (asarray (Scalar K)) = Inr a
      \<and> ndim a = max (ndim fs) (ndim (asarray (Scalar K)))
      \<and> holds 1 False a (Suc n) (\<lambda>k j. if knd = ''call'' then ?A j > K else ?A j < K)"
      by (rule ufunc2_holds [OF fs(3) stk]) (auto simp add: compat_def bdim_def False)
    then show ?thesis using False by simp
  qed
  then obtain itm where itm: "(if knd = ''call'' then ufunc2 (\<lambda>x y. x > y) fs (asarray (Scalar K))
            else ufunc2 (\<lambda>x y. x < y) fs (asarray (Scalar K))) = Inr itm"
    "ndim itm = 1"
    "holds 1 False itm (Suc n) (\<lambda>k j. if knd = ''call'' then ?A j > K else ?A j < K)"
    by (auto simp add: fs(2) ndim_sources)
  have "\<exists>a. (if knd = ''call'' then ufunc2 (-) fs (asarray (Scalar K))
            else ufunc2 (-) (asarray (Scalar K)) fs) = Inr a
      \<and> ndim a = 1
      \<and> holds 1 False (ufunc1 (\<lambda>x. max x 0) a) (Suc n) (\<lambda>k j. spec_payoff knd K (?A j))"
  proof (cases "knd = ''call''")
    case True
    have "\<exists>a. ufunc2 (-) fs (asarray (Scalar K)) = Inr a
      \<and> ndim a = max (ndim fs) (ndim (asarray (Scalar K)))
      \<and> holds 1 False a (Suc n) (\<lambda>k j. ?A j - K)"
      by (rule ufunc2_holds [OF fs(3) stk]) (auto simp add: compat_def bdim_def)
    then obtain a where a: "ufunc2 (-) fs (asarray (Scalar K)) = Inr a" "ndim a = 1"
      "holds 1 False a (Suc n) (\<lambda>k j. ?A j - K)"
      by (auto simp add: fs(2) ndim_sources)
    have "holds 1 False (ufunc1 (\<lambda>x. max x 0) a) (Suc n) (\<lambda>k j. spec_payoff knd K (?A j))"
      using holds_ufunc1 [OF a(3), where f = "\<lambda>x. max x 0"] True by (simp add: spec_payoff_def)
    then show ?thesis using a(1,2) True by simp
  next
    case False
    have "\<exists>a. ufunc2 (-) (asarray (Scalar K)) fs = Inr a
      \<and> ndim a = max (ndim (asarray (Scalar K))) (ndim fs)
      \<and> holds 1 False a (Suc n) (\<lambda>k j. K - ?A j)"
      by (rule ufunc2_holds [OF stk fs(3)]) (auto simp add: compat_def bdim_def)
    then obtain a where a: "ufunc2 (-) (asarray (Scalar K)) fs = Inr a" "ndim a = 1"
      "holds 1 False a (Suc n) (\<lambda>k j. K - ?A j)"
      by (auto simp add: fs(2) ndim_sources)
    have "holds 1 False (ufunc1 (\<lambda>x. max x 0) a) (Suc n) (\<lambda>k j. spec_payoff knd K (?A j))"
      using holds_ufunc1 [OF a(3), where f = "\<lambda>x. max x 0"] False by (simp add: spec_payoff_def)
    then show ?thesis using a(1,2) False by simp
  qed
  then obtain df where df: "(if knd = ''call'' then ufunc2 (-) fs (asarray (Scalar K))
            else ufunc2 (-) (asarray (Scalar K)) fs) = Inr df"
    "ndim df = 1"
    "holds 1 False (ufunc1 (\<lambda>x. max x 0) df) (Suc n) (\<lambda>k j. spec_payoff knd K (?A j))"
    by blast
  have "\<exists>a. ufunc2 (*) (asarray (Scalar rt)) (asarray (Scalar t)) = Inr a
      \<and> ndim a = max (ndim (asarray (Scalar rt))) (ndim (asarray (Scalar t)))
      \<and> holds 1 False a 1 (\<lambda>k j. rt * t)"
    by (rule ufunc2_holds [OF rat tt]) (auto simp add: compat_def bdim_def)
  then obtain rtt where rtt: "ufunc2 (*) (asarray (Scalar rt)) (asarray (Scalar t)) = Inr rtt"
    "ndim rtt = 0" "holds 1 False rtt 1 (\<lambda>k j. rt * t)"
    by (auto simp add: ndim_sources)
  have ert: "holds 1 False (ufunc1 exp rtt) 1 (\<lambda>k j. exp (rt * t))"
    by (rule holds_ufunc1 [OF rtt(3)])
  have pa: "price_array (Array [?v]) = array1 [?v]" by (simp add: price_array_def)
  have "\<exists>a. ufunc2 (*) (array1 [?v]) (ufunc1 exp rtt) = Inr a
      \<and> ndim a = max (ndim (array1 [?v])) (ndim (ufunc1 exp rtt))
      \<and> holds 1 False a 1 (\<lambda>k j. ?v * exp (rt * t))"
    by (rule ufunc2_holds [OF holds_array1_single ert]) (auto simp add: compat_def bdim_def)
  then obtain fwd where fwd: "ufunc2 (*) (array1 [?v]) (ufunc1 exp rtt) = Inr fwd"
    "ndim fwd = 1" "holds 1 False fwd 1 (\<lambda>k j. ?v * exp (rt * t))"
    by (auto simp add: ndim_sources ndim_ufunc1 rtt(2))
  have "\<exists>a. ufunc2 (\<lambda>x y. x > y) (ufunc1 (\<lambda>x. max x 0) df) fwd = Inr a
      \<and> ndim a = max (ndim (ufunc1 (\<lambda>x. max x 0) df)) (ndim fwd)
      \<and> holds 1 False a (Suc n) (\<lambda>k j. spec_payoff knd K (?A j) > ?v * exp (rt * t))"
    by (rule ufunc2_holds [OF df(3) fwd(3)]) (auto simp add: compat_def bdim_def)
  then obtain prof where prof: "ufunc2 (\<lambda>x y. x > y) (ufunc1 (\<lambda>x. max x 0) df) fwd = Inr prof"
    "ndim prof = 1"
    "holds 1 False prof (Suc n) (\<lambda>k j. spec_payoff knd K (?A j) > ?v * exp (rt * t))"
    by (auto simp add: ndim_ufunc1 df(2) fwd(2))
  have emu: "holds 1 False (ufunc1 (\<lambda>x. exp (mu * x)) ?dt) 1 (\<lambda>k j. exp (mu * spec_dt t n))"
    by (rule holds_ufunc1 [OF dt])
  have "\<exists>a. ufunc2 (-) (ufunc1 (\<lambda>x. exp (mu * x)) ?dt) ?d = Inr a
      \<and> ndim a = max (ndim (ufunc1 (\<lambda>x. exp (mu * x)) ?dt)) (ndim ?d)
      \<and> holds 1 False a 1 (\<lambda>k j. exp (mu * spec_dt t n) - spec_d sg t n)"
    by (rule ufunc2_holds [OF emu d]) (auto simp add: compat_def bdim_def)
  then obtain num where num: "ufunc2 (-) (ufunc1 (\<lambda>x. exp (mu * x)) ?dt) ?d = Inr num"
    "ndim num = 0" "holds 1 False num 1 (\<lambda>k j. exp (mu * spec_dt t n) - spec_d sg t n)"
    by (auto simp add: ndim_sources ndim_ufunc1 sd(2))
  have "\<exists>a. ufunc2 (-) ?u ?d = Inr a \<and> ndim a = max (ndim ?u) (ndim ?d)
      \<and> holds 1 False a 1 (\<lambda>k j. spec_u sg t n - spec_d sg t n)"
    by (rule ufunc2_holds [OF u d]) (auto simp add: compat_def bdim_def)
  then obtain den where den: "ufunc2 (-) ?u ?d = Inr den" "ndim den = 0"
    "holds 1 False den 1 (\<lambda>k j. spec_u sg t n - spec_d sg t n)"
    by (auto simp add: sd(2) ndim_ufunc1)
  have "\<exists>a. ufunc2 (/) num den = Inr a \<and> ndim a = max (ndim num) (ndim den)
      \<and> holds 1 False a 1 (\<lambda>k j. spec_p_real mu sg t n)"
    by (rule ufunc2_holds [OF num(3) den(3)]) (auto simp add: compat_def bdim_def spec_p_real_def)
  then obtain p_real where p_real: "ufunc2 (/) num den = Inr p_real" "ndim p_real = 0"
    "holds 1 False p_real 1 (\<lambda>k j. spec_p_real mu sg t n)"
    by (auto simp add: num(2) den(2))
  have "\<exists>a. ufunc2 (\<lambda>k p. binom_pmf k n p) ?j p_real = Inr a
      \<and> ndim a = max (ndim ?j) (ndim p_real)
      \<and> holds 1 False a (Suc n) (\<lambda>k j. binom_pmf (int j) n (spec_p_real mu sg t n))"
    by (rule ufunc2_holds [OF j p_real(3)]) (auto simp add: compat_def bdim_def)
  then obtain pr where pr: "ufunc2 (\<lambda>k p. binom_pmf k n p) ?j p_real = Inr pr" "ndim pr = 1"
    "holds 1 False pr (Suc n) (\<lambda>k j. binom_pmf (int j) n (spec_p_real mu sg t n))"
    by (auto simp add: ndim_sources p_real(2))
  have n0: "n \<noteq> 0" using n by simp
  have "prob_nodes ?o mu n = Inr (pr, prof, itm)"
    using n0
    by (simp add: prob_nodes_def bindE_def Let_def price pa sd(1) up(1) su(1) dn(1) fs(1) itm(1)
        df(1) rtt(1) fwd(1) prof(1) num(1) den(1) p_real(1) pr(1)
        del: asarray.simps cong: if_cong)
  then show ?thesis
    using pr(2,3) prof(2,3) itm(2,3) by blast
qed

text \<open>
  Claim C9. For a contract with scalar attributes, positive volatility and time to
  maturity, a drift \<open>mu\<close> and \<open>n \<ge> 1\<close> levels such that the real-world probability
  \<open>p_real = (exp(mu dt) - d) / (u - d)\<close> lies between 0 and 1, the lattice probability
  module returns as probability of profit the sum, over the profitable ones of the
  \<open>n + 1\<close> terminal nodes, of the masses of the binomial distribution with parameters
  \<open>n\<close> and \<open>p_real\<close>, and as probability of being in the money the sum of the masses of
  the nodes in the money; the masses of all the nodes sum to 1, so the probability of
  profit plus the mass of the nodes that are not profitable is 1.
\<close>

theorem lattice_probability_complement:
  assumes "1 \<le> n" and "knd = ''call'' \<or> knd = ''put''" and "0 < sg" and "0 < t"
    and "0 \<le> spec_p_real mu sg t n" and "spec_p_real mu sg t n \<le> 1"
  shows "bopm_prob_of_profit \<lparr>tau = Scalar t, spot = Scalar S, strike = Scalar K,
          sigma = Scalar sg, r = Scalar rt, dividend = Scalar q, kind = knd, region = rg\<rparr> mu n
        = Inr (\<Sum>j<n + 1. if spec_profitable rg knd S K sg t rt q n j
                            then spec_mass mu sg t n j else 0,
               \<Sum>j<n + 1. if spec_in_the_money knd S K sg t n j
                            then spec_mass mu sg t n j else 0)
     \<and> (\<Sum>j<n + 1. spec_mass mu sg t n j) = 1
     \<and> (\<Sum>j<n + 1. if spec_profitable rg knd S K sg t rt q n j then spec_mass mu sg t n j else 0)
       + (\<Sum>j<n + 1. if \<not> spec_profitable rg knd S K sg t rt q n j
                       then spec_mass mu sg t n j else 0) = 1"
proof -
  let ?o = "\<lparr>tau = Scalar t, spot = Scalar S, strike = Scalar K, sigma = Scalar sg,
        r = Scalar rt, dividend = Scalar q, kind = knd, region = rg\<rparr>"
  obtain pr prof itm where nodes: "prob_nodes ?o mu n = Inr (pr, prof, itm)"
    and nd: "ndim pr = 1" "ndim prof = 1" "ndim itm = 1"
    and pr: "holds 1 False pr (Suc n) (\<lambda>k j. binom_pmf (int j) n (spec_p_real mu sg t n))"
    and prof: "holds 1 False prof (Suc n)
          (\<lambda>k j. spec_payoff knd K (spec_asset S (spec_u sg t n) (spec_d sg t n) n j)
                   > spec_lattice_price (rg = ''us'') knd S K sg t rt q n * exp (rt * t))"
    and itm: "holds 1 False itm (Suc n)
          (\<lambda>k j. if knd = ''call'' then spec_asset S (spec_u sg t n) (spec_d sg t n) n j > K
                  else spec_asset S (spec_u sg t n) (spec_d sg t n) n j < K)"
    using prob_nodes_scalar [OF assms(1,2)] by blast
  have shp: "nrows pr = 1" "ncols pr = Suc n" "nrows prof = 1" "ncols prof = Suc n"
    "nrows itm = 1" "ncols itm = Suc n"
    using pr prof itm by (simp_all add: holds_def)
  have els: "el pr 0 j = spec_mass mu sg t n j" if "j < Suc n" for j
    using pr that by (simp add: holds_def spec_mass_def)
  have elp: "el prof 0 j = spec_profitable rg knd S K sg t rt q n j" if "j < Suc n" for j
    using prof that by (simp add: holds_def spec_profitable_def)
  have eli: "el itm 0 j = spec_in_the_money knd S K sg t n j" if "j < Suc n" for j
    using itm that by (simp add: holds_def spec_in_the_money_def)
  have total: "(\<Sum>j<Suc n. spec_mass mu sg t n j) = 1"
    unfolding spec_mass_def by (simp only: binom_pmf_sum)
  let ?pop = "\<Sum>j<Suc n. if el prof 0 j then el pr 0 j else 0"
  let ?itm = "\<Sum>j<Suc n. if el itm 0 j then el pr 0 j else 0"
  have m1: "masked_sum pr prof = Inr ?pop"
    by (rule masked_sum_row [OF nd(1) nd(2) shp(1) shp(3) shp(2) shp(4)])
  have m2: "masked_sum pr itm = Inr ?itm"
    by (rule masked_sum_row [OF nd(1) nd(3) shp(1) shp(5) shp(2) shp(6)])
  have p1: "?pop = (\<Sum>j<Suc n. if spec_profitable rg knd S K sg t rt q n j
                            then spec_mass mu sg t n j else 0)"
    by (rule sum.cong) (simp_all add: els elp)
  have p2: "?itm = (\<Sum>j<Suc n. if spec_in_the_money knd S K sg t n j
                            then spec_mass mu sg t n j else 0)"
    by (rule sum.cong) (simp_all add: els eli)
  have run: "bopm_prob_of_profit ?o mu n = Inr (?pop, ?itm)"
    by (simp add: bopm_prob_of_profit_def bindE_def nodes m1 m2)
  have compl: "(\<Sum>j<Suc n. if spec_profitable rg knd S K sg t rt q n j then spec_mass mu sg t n j else 0)
       + (\<Sum>j<Suc n. if \<not> spec_profitable rg knd S K sg t rt q n j
                       then spec_mass mu sg t n j else 0) = 1"
    using masked_sum_complement [where c = "Suc n" and m = "spec_profitable rg knd S K sg t rt q n"
        and a = "spec_mass mu sg t n"] total
    by simp
  show ?thesis
    using run total compl unfolding p1 p2 by simp
qed

text \<open>
  The one-level tree of the at-the-money call with spot and strike 100, volatility 0.2,
  rate 0.02 and one year to maturity, under the drift 0: only the node with no down-move
  is profitable and in the money, and it carries the mass \<open>binom.pmf(0, 1, p_real)\<close>,
  that is \<open>1 - p_real\<close>.
\<close>

lemma p_real_example: "0 \<le> spec_p_real 0 (1 / 5) 1 1 \<and> spec_p_real 0 (1 / 5) 1 1 \<le> 1"
proof -
  have x: "1 < exp (1 / 5 :: real)" by simp
  have d: "1 / exp (1 / 5 :: real) < 1" using x by simp
  have "spec_p_real 0 (1 / 5) 1 1 = (1 - 1 / exp (1 / 5)) / (exp (1 / 5) - 1 / exp (1 / 5))"
    by (simp add: spec_p_real_def spec_dt_def spec_u_def spec_d_def)
  moreover have "0 \<le> (1 - 1 / exp (1 / 5 :: real)) / (exp (1 / 5) - 1 / exp (1 / 5))"
    using x d by (intro divide_nonneg_nonneg) linarith+
  moreover have "(1 - 1 / exp (1 / 5 :: real)) / (exp (1 / 5) - 1 / exp (1 / 5)) \<le> 1"
  proof -
    have "0 < exp (1 / 5 :: real) - 1 / exp (1 / 5)" using x d by linarith
    moreover have "1 - 1 / exp (1 / 5 :: real) \<le> exp (1 / 5) - 1 / exp (1 / 5)" using x by linarith
    ultimately show ?thesis by (simp only: divide_le_eq_1_pos)
  qed
  ultimately show ?thesis by simp
qed

lemma mass_example:
  "spec_mass 0 (1 / 5) 1 1 0 = 1 - spec_p_real 0 (1 / 5) 1 1"
  "spec_mass 0 (1 / 5) 1 1 (Suc 0) = spec_p_real 0 (1 / 5) 1 1"
  by (simp_all add: spec_mass_def binom_pmf_def)

lemma itm_example:
  "spec_in_the_money ''call'' 100 100 (1 / 5) 1 1 0"
  "\<not> spec_in_the_money ''call'' 100 100 (1 / 5) 1 1 (Suc 0)"
proof -
  have x: "1 < exp (1 / 5 :: real)" by simp
  then have d: "1 / exp (1 / 5 :: real) < 1" by simp
  show "spec_in_the_money ''call'' 100 100 (1 / 5) 1 1 0"
    using x by (simp add: spec_in_the_money_def spec_asset_def spec_u_def spec_dt_def)
  have "100 / exp (1 / 5 :: real) < 100" using x by (simp add: divide_less_eq)
  then show "\<not> spec_in_the_money ''call'' 100 100 (1 / 5) 1 1 (Suc 0)"
    by (simp add: spec_in_the_money_def spec_asset_def spec_u_def spec_d_def spec_dt_def)
qed

lemma profitable_example:
  "spec_profitable ''eu'' ''call'' 100 100 (1 / 5) 1 (1 / 50) 0 1 0"
  "\<not> spec_profitable ''eu'' ''call'' 100 100 (1 / 5) 1 (1 / 50) 0 1 (Suc 0)"
proof -
  define u :: real where "u = exp (1 / 5)"
  define p :: real where "p = (exp (1 / 50) - 1 / u) / (u - 1 / u)"
  have x: "1 < u" by (simp add: u_def)
  then have d: "1 / u < 1" by simp
  have e: "exp (1 / 50 :: real) < u" by (simp add: u_def)
  have e1: "1 < exp (1 / 50 :: real)" by simp
  have den: "0 < u - 1 / u" using x d by linarith
  have d100: "100 / u \<le> 100" using x by (simp add: divide_le_eq)
  have p0: "0 \<le> p" unfolding p_def using den e1 d by (intro divide_nonneg_nonneg) linarith+
  have p1: "p < 1" unfolding p_def using den e by (simp add: divide_less_eq_1_pos)
  have price: "spec_lattice_price (''eu'' = ''us'') ''call'' 100 100 (1 / 5) 1 (1 / 50) 0 1
       * exp (1 / 50 * 1) = p * (100 * u - 100)"
  proof -
    have "spec_lattice_price (''eu'' = ''us'') ''call'' 100 100 (1 / 5) 1 (1 / 50) 0 1
        = exp (- (1 / 50)) * (p * (100 * u - 100))"
      using x d100
      by (simp add: spec_lattice_price_def spec_payoff_def spec_asset_def spec_u_def spec_d_def
          spec_p_def spec_dt_def u_def [symmetric] p_def [symmetric] max_def)
    then have "spec_lattice_price (''eu'' = ''us'') ''call'' 100 100 (1 / 5) 1 (1 / 50) 0 1
        * exp (1 / 50 * 1) = exp (- (1 / 50)) * (p * (100 * u - 100)) * exp (1 / 50)"
      by simp
    also have "\<dots> = (exp (- (1 / 50)) * exp (1 / 50)) * (p * (100 * u - 100))"
      by (simp only: mult.assoc mult.commute mult.left_commute)
    also have "exp (- (1 / 50 :: real)) * exp (1 / 50) = 1"
      by (simp add: exp_minus)
    finally show ?thesis by simp
  qed
  have up: "spec_payoff ''call'' 100 (spec_asset 100 (spec_u (1 / 5) 1 1) (spec_d (1 / 5) 1 1) 1 0)
      = 100 * u - 100"
    using x by (simp add: spec_payoff_def spec_asset_def spec_u_def spec_dt_def u_def [symmetric] max_def)
  have dn: "spec_payoff ''call'' 100 (spec_asset 100 (spec_u (1 / 5) 1 1) (spec_d (1 / 5) 1 1) 1 (Suc 0))
      = 0"
    using d100 by (simp add: spec_payoff_def spec_asset_def spec_u_def spec_d_def spec_dt_def
        u_def [symmetric] max_def)
  have pos: "0 < 100 * u - 100" using x by simp
  have "p * (100 * u - 100) < 1 * (100 * u - 100)"
    using p1 pos by (intro mult_strict_right_mono)
  then show "spec_profitable ''eu'' ''call'' 100 100 (1 / 5) 1 (1 / 50) 0 1 0"
    unfolding spec_profitable_def price up by simp
  have "0 \<le> p * (100 * u - 100)" using p0 pos by simp
  then show "\<not> spec_profitable ''eu'' ''call'' 100 100 (1 / 5) 1 (1 / 50) 0 1 (Suc 0)"
    unfolding spec_profitable_def price dn by simp
qed

theorem lattice_probability_complement_witness:
  "(1::nat) \<le> 1 \<and> (0::real) < 1 / 5 \<and> (0::real) < 1
   \<and> 0 \<le> spec_p_real 0 (1 / 5) 1 1 \<and> spec_p_real 0 (1 / 5) 1 1 \<le> 1
   \<and> bopm_prob_of_profit \<lparr>tau = Scalar 1, spot = Scalar 100, strike = Scalar 100,
          sigma = Scalar (1 / 5), r = Scalar (1 / 50), dividend = Scalar 0, kind = ''call'',
          region = ''eu''\<rparr> 0 1
       = Inr (1 - spec_p_real 0 (1 / 5) 1 1, 1 - spec_p_real 0 (1 / 5) 1 1)
   \<and> spec_mass 0 (1 / 5) 1 1 0 + spec_mass 0 (1 / 5) 1 1 1 = 1"
proof -
  have s2: "(\<Sum>j<1 + 1. f j) = f 0 + f (Suc 0)" for f :: "nat \<Rightarrow> real"
    by simp
  from lattice_probability_complement [where n = 1 and knd = "''call''" and sg = "1 / 5"
      and t = 1 and mu = 0 and S = 100 and K = 100 and rt = "1 / 50" and q = 0 and rg = "''eu''"]
    p_real_example
  have "bopm_prob_of_profit \<lparr>tau = Scalar 1, spot = Scalar 100, strike = Scalar 100,
          sigma = Scalar (1 / 5), r = Scalar (1 / 50), dividend = Scalar 0, kind = ''call'',
          region = ''eu''\<rparr> 0 1
        = Inr (\<Sum>j<1 + 1. if spec_profitable ''eu'' ''call'' 100 100 (1 / 5) 1 (1 / 50) 0 1 j
                            then spec_mass 0 (1 / 5) 1 1 j else 0,
               \<Sum>j<1 + 1. if spec_in_the_money ''call'' 100 100 (1 / 5) 1 1 j
                            then spec_mass 0 (1 / 5) 1 1 j else 0)
     \<and> (\<Sum>j<1 + 1. spec_mass 0 (1 / 5) 1 1 j) = 1"
    by simp
  then have "bopm_prob_of_profit \<lparr>tau = Scalar 1, spot = Scalar 100, strike = Scalar 100,
          sigma = Scalar (1 / 5), r = Scalar (1 / 50), dividend = Scalar 0, kind = ''call'',
          region = ''eu''\<rparr> 0 1
       = Inr (1 - spec_p_real 0 (1 / 5) 1 1, 1 - spec_p_real 0 (1 / 5) 1 1)
     \<and> spec_mass 0 (1 / 5) 1 1 0 + spec_mass 0 (1 / 5) 1 1 (Suc 0) = 1"
    unfolding s2 using profitable_example itm_example mass_example by simp
  with p_real_example show ?thesis by simp
qed

section \<open>The analytic price, the sensitivities and put--call parity\<close>

lemma N_gt_half:
  assumes "0 < x" and "x \<le> 1"
  shows "1 / 2 < N x"
proof -
  have "1 / 2 + 1 / sqrt (2 * pi) * (x - x ^ 3 / 6) \<le> N x"
    using assms by (intro N_lower) auto
  moreover have "0 < 1 / sqrt (2 * pi) * (x - x ^ 3 / 6)"
  proof (intro mult_pos_pos)
    show "0 < 1 / sqrt (2 * pi)" by simp
    have "x ^ 3 \<le> x * 1"
      using assms by (simp add: power3_eq_cube mult_le_one mult_left_le)
    then show "0 < x - x ^ 3 / 6" using assms by simp
  qed
  ultimately show ?thesis by linarith
qed

lemma d_1_contract:
  assumes "0 < S" and "0 < K" and "0 < t" and "sg \<noteq> 0"
  shows "d_1 (contract t S K sg rt q knd rg) = Returns (spec_d_plus S K rt sg t)"
  using assms
  by (simp add: d_1_def contract_def bindO_def np_log_def np_sqrt_def np_div_def
      spec_d_plus_def Let_def)

lemma d_2_contract:
  assumes "0 < S" and "0 < K" and "0 < t" and "sg \<noteq> 0"
  shows "d_2 (contract t S K sg rt q knd rg) = Returns (spec_d_minus S K rt sg t)"
  using assms
  by (simp add: d_2_def d_1_contract bindO_def np_sqrt_def spec_d_minus_def)
    (simp add: contract_def)

lemma bs_option_price_contract:
  assumes "0 < S" and "0 < K" and "0 < t" and "sg \<noteq> 0"
  shows "bs_option_price (contract t S K sg rt q knd rg) = Returns (spec_bs_price knd S K rt sg t)"
  using assms
  by (simp add: bs_option_price_def d_1_contract d_2_contract bindO_def spec_bs_price_def)
    (simp add: contract_def)

lemma greeks_contract:
  assumes "0 < S" and "0 < K" and "0 < t" and "sg \<noteq> 0"
  shows "greeks (contract t S K sg rt q knd rg) =
     Returns
       (if knd = ''call'' then N (spec_d_plus S K rt sg t) else N (spec_d_plus S K rt sg t) - 1,
        dN (spec_d_plus S K rt sg t) / (S * sg * sqrt t),
        spec_vega S K rt sg t,
        if knd = ''call''
        then - (S * dN (spec_d_plus S K rt sg t) * sg) / (2 * sqrt t)
             - rt * K * exp (- rt * t) * N (spec_d_minus S K rt sg t)
        else - (S * dN (spec_d_plus S K rt sg t) * sg) / (2 * sqrt t)
             + rt * K * exp (- rt * t) * N (- spec_d_minus S K rt sg t),
        if knd = ''call'' then K * t * exp (- rt * t) * N (spec_d_minus S K rt sg t)
        else - K * t * exp (- rt * t) * N (- spec_d_minus S K rt sg t))"
proof -
  have flds: "spot (contract t S K sg rt q knd rg) = Finite S"
    "strike (contract t S K sg rt q knd rg) = Finite K"
    "sigma (contract t S K sg rt q knd rg) = Finite sg"
    "r (contract t S K sg rt q knd rg) = Finite rt"
    "tau (contract t S K sg rt q knd rg) = Finite t"
    "kind (contract t S K sg rt q knd rg) = knd"
    by (simp_all add: contract_def)
  show ?thesis
    using assms
    by (simp add: greeks_def d_1_contract d_2_contract flds bindO_def np_sqrt_def np_div_def
        spec_vega_def Let_def)
qed

lemma newton_update_contract:
  assumes "0 < S" and "0 < K" and "0 < t" and "sg \<noteq> 0"
  shows "newton_update (contract t S K sg rt q knd rg) price =
     Inr (Finite (sg - (spec_bs_price knd S K rt sg t - price) / spec_vega S K rt sg t))"
proof -
  have flds: "spot (contract t S K sg rt q knd rg) = Finite S"
    "sigma (contract t S K sg rt q knd rg) = Finite sg"
    "tau (contract t S K sg rt q knd rg) = Finite t"
    by (simp_all add: contract_def)
  have "0 < dN (spec_d_plus S K rt sg t)" by (rule dN_pos)
  then have "S * dN (spec_d_plus S K rt sg t) * sqrt t \<noteq> 0"
    using assms by simp
  then show ?thesis
    using assms
    by (simp add: newton_update_def bs_option_price_contract d_1_contract flds bindO_def
        np_sqrt_def np_div_def spec_vega_def Let_def)
qed

text \<open>
  Claim C5, as amended. For a contract with scalar attributes, positive volatility,
  time to maturity, spot and strike, the analytic price is
  \<open>N(d+) S - N(d-) K exp(-r tau)\<close> for a call and
  \<open>N(-d-) K exp(-r tau) - N(-d+) S\<close> for a put, with \<open>d+\<close> and \<open>d-\<close> as the
  specification defines them.
\<close>

theorem bs_option_price_closed_form:
  assumes "0 < sg" and "0 < t" and "0 < S" and "0 < K"
  shows "bs_option_price (contract t S K sg rt q ''call'' rg)
           = Returns (N (spec_d_plus S K rt sg t) * S
                      - N (spec_d_minus S K rt sg t) * K * exp (- rt * t))
       \<and> bs_option_price (contract t S K sg rt q ''put'' rg)
           = Returns (N (- spec_d_minus S K rt sg t) * K * exp (- rt * t)
                      - N (- spec_d_plus S K rt sg t) * S)"
  using assms by (simp add: bs_option_price_contract spec_bs_price_def)

theorem bs_option_price_closed_form_witness:
  "(0::real) < 1 / 5 \<and> (0::real) < 1 \<and> (0::real) < 100 \<and> (0::real) < 90
   \<and> bs_option_price scenario
       = Returns (N (spec_d_plus 100 90 (1 / 50) (1 / 5) 1) * 100
                  - N (spec_d_minus 100 90 (1 / 50) (1 / 5) 1) * 90 * exp (- (1 / 50) * 1))"
  using bs_option_price_closed_form [where sg = "1 / 5" and t = 1 and S = 100 and K = 90
      and rt = "1 / 50" and q = 0 and rg = "''eu''"]
  by (simp add: scenario_def)

text \<open>
  With a strike of zero the division of spot by strike raises, whatever the volatility
  and the time to maturity are.
\<close>

theorem bs_option_price_zero_strike_counterexample:
  "bs_option_price (contract 1 100 0 (1 / 5) (1 / 50) 0 ''call'' ''eu'')
     = Raises (ZeroDivisionError ''float division by zero'')"
  by (simp add: bs_option_price_def d_1_def contract_def bindO_def)

lemma spec_parity:
  "spec_bs_price ''call'' S K rt sg t - spec_bs_price ''put'' S K rt sg t = S - K * exp (- rt * t)"
  by (simp add: spec_bs_price_def N_minus algebra_simps)

text \<open>
  Claim C4, as amended. The analytic pricer never reads the dividend yield, so for a
  call and the put with the same attributes, with positive volatility, time to maturity,
  spot and strike, the difference of the prices is \<open>spot - strike exp(-r tau)\<close>: put--call
  parity with the dividend factor left out.
\<close>

theorem put_call_parity_without_dividend:
  assumes "0 < sg" and "0 < t" and "0 < S" and "0 < K"
  shows "bs_option_price (contract t S K sg rt q ''call'' rg)
           = Returns (spec_bs_price ''call'' S K rt sg t)
       \<and> bs_option_price (contract t S K sg rt q ''put'' rg)
           = Returns (spec_bs_price ''put'' S K rt sg t)
       \<and> spec_bs_price ''call'' S K rt sg t - spec_bs_price ''put'' S K rt sg t
           = S - K * exp (- rt * t)"
  using assms by (simp add: bs_option_price_contract spec_parity)

theorem put_call_parity_without_dividend_witness:
  "(0::real) < 1 / 5 \<and> (0::real) < 1 \<and> (0::real) < 100 \<and> (0::real) < 90
   \<and> bs_option_price scenario = Returns (spec_bs_price ''call'' 100 90 (1 / 50) (1 / 5) 1)
   \<and> bs_option_price (contract 1 100 90 (1 / 5) (1 / 50) 0 ''put'' ''eu'')
       = Returns (spec_bs_price ''put'' 100 90 (1 / 50) (1 / 5) 1)
   \<and> spec_bs_price ''call'' 100 90 (1 / 50) (1 / 5) 1 - spec_bs_price ''put'' 100 90 (1 / 50) (1 / 5) 1
       = 100 - 90 * exp (- (1 / 50) * 1)"
  using put_call_parity_without_dividend [where sg = "1 / 5" and t = 1 and S = 100 and K = 90
      and rt = "1 / 50" and q = 0 and rg = "''eu''"]
  by (simp add: scenario_def)

text \<open>
  With a dividend yield of 0.05 on the scenario contract the difference of the prices is
  still \<open>100 - 90 exp(-0.02)\<close>, not \<open>100 exp(-0.05) - 90 exp(-0.02)\<close>.
\<close>

theorem put_call_parity_dividend_counterexample:
  "bs_option_price (contract 1 100 90 (1 / 5) (1 / 50) (1 / 20) ''call'' ''eu'')
     = Returns (spec_bs_price ''call'' 100 90 (1 / 50) (1 / 5) 1)
   \<and> bs_option_price (contract 1 100 90 (1 / 5) (1 / 50) (1 / 20) ''put'' ''eu'')
     = Returns (spec_bs_price ''put'' 100 90 (1 / 50) (1 / 5) 1)
   \<and> spec_bs_price ''call'' 100 90 (1 / 50) (1 / 5) 1 - spec_bs_price ''put'' 100 90 (1 / 50) (1 / 5) 1
     \<noteq> 100 * exp (- (1 / 20) * 1) - 90 * exp (- (1 / 50) * 1)"
proof -
  have "exp (- (1 / 20) :: real) \<noteq> 1" by simp
  then have "spec_bs_price ''call'' 100 90 (1 / 50) (1 / 5) 1
      - spec_bs_price ''put'' 100 90 (1 / 50) (1 / 5) 1
     \<noteq> 100 * exp (- (1 / 20) * 1) - 90 * exp (- (1 / 50) * 1)"
    by (simp add: spec_parity)
  then show ?thesis
    by (simp add: bs_option_price_contract)
qed

text \<open>
  Claim C8, as amended. For a put with positive volatility, time to maturity, spot and
  strike, \<open>greeks\<close> returns delta \<open>N(d+) - 1\<close>; theta is the common first term plus the
  risk-free term \<open>r K exp(-r tau) N(-d-)\<close>, that is the term of the call branch with
  the opposite sign and with \<open>N\<close> taken at \<open>-d-\<close>; rho is
  \<open>- K tau exp(-r tau) N(-d-)\<close>, which is the rho of the call branch minus
  \<open>K tau exp(-r tau)\<close>.
\<close>

theorem greeks_put:
  assumes "0 < sg" and "0 < t" and "0 < S" and "0 < K"
  shows "greeks (contract t S K sg rt q ''put'' rg) =
       Returns (N (spec_d_plus S K rt sg t) - 1,
        dN (spec_d_plus S K rt sg t) / (S * sg * sqrt t),
        S * dN (spec_d_plus S K rt sg t) * sqrt t,
        - (S * dN (spec_d_plus S K rt sg t) * sg) / (2 * sqrt t)
          + rt * K * exp (- rt * t) * N (- spec_d_minus S K rt sg t),
        - (K * t * exp (- rt * t) * N (- spec_d_minus S K rt sg t)))
     \<and> - (K * t * exp (- rt * t) * N (- spec_d_minus S K rt sg t))
         = K * t * exp (- rt * t) * N (spec_d_minus S K rt sg t) - K * t * exp (- rt * t)"
  using assms by (simp add: greeks_contract spec_vega_def N_minus algebra_simps)

theorem greeks_put_witness:
  "(0::real) < 1 / 5 \<and> (0::real) < 1 \<and> (0::real) < 100 \<and> (0::real) < 90
   \<and> greeks (contract 1 100 90 (1 / 5) (1 / 50) 0 ''put'' ''eu'') =
       Returns (N (spec_d_plus 100 90 (1 / 50) (1 / 5) 1) - 1,
        dN (spec_d_plus 100 90 (1 / 50) (1 / 5) 1) / (100 * (1 / 5) * sqrt 1),
        100 * dN (spec_d_plus 100 90 (1 / 50) (1 / 5) 1) * sqrt 1,
        - (100 * dN (spec_d_plus 100 90 (1 / 50) (1 / 5) 1) * (1 / 5)) / (2 * sqrt 1)
          + 1 / 50 * 90 * exp (- (1 / 50) * 1) * N (- spec_d_minus 100 90 (1 / 50) (1 / 5) 1),
        - (90 * 1 * exp (- (1 / 50) * 1) * N (- spec_d_minus 100 90 (1 / 50) (1 / 5) 1)))"
  using greeks_put [where sg = "1 / 5" and t = 1 and S = 100 and K = 90
      and rt = "1 / 50" and q = 0 and rg = "''eu''", THEN conjunct1]
  by simp

lemma d_example: "spec_d_plus 100 100 (1 / 25) (1 / 5) 1 = 3 / 10"
  "spec_d_minus 100 100 (1 / 25) (1 / 5) 1 = 1 / 10"
  by (simp_all add: spec_d_plus_def spec_d_minus_def power2_eq_square)

text \<open>
  The put with spot 100, strike 100, volatility 0.2, rate 0.04 and one year to maturity
  has \<open>d+ = 0.3\<close> and \<open>d- = 0.1\<close>. Its theta has the risk-free term
  \<open>4 exp(-0.04) N(-0.1)\<close>, not \<open>4 exp(-0.04) N(0.1)\<close>, and its rho is
  \<open>-100 exp(-0.04) N(-0.1)\<close>, not the \<open>-100 exp(-0.04) N(0.1)\<close> that negating the rho of
  the call branch gives.
\<close>

theorem greeks_put_counterexample:
  "greeks (contract 1 100 100 (1 / 5) (1 / 25) 0 ''put'' ''eu'') =
     Returns (N (3 / 10) - 1,
        dN (3 / 10) / 20,
        100 * dN (3 / 10),
        - (20 * dN (3 / 10)) / 2 + 4 * exp (- (1 / 25)) * N (- (1 / 10)),
        - (100 * exp (- (1 / 25)) * N (- (1 / 10))))
   \<and> - (20 * dN (3 / 10)) / 2 + 4 * exp (- (1 / 25)) * N (- (1 / 10))
       \<noteq> - (20 * dN (3 / 10)) / 2 + 4 * exp (- (1 / 25)) * N (1 / 10)
   \<and> - (100 * exp (- (1 / 25)) * N (- (1 / 10))) \<noteq> - (100 * exp (- (1 / 25)) * N (1 / 10))"
proof -
  have "1 / 2 < N (1 / 10)" by (rule N_gt_half) simp_all
  then have ne: "N (- (1 / 10)) \<noteq> N (1 / 10)"
    using N_minus [of "1 / 10"] by linarith
  have "greeks (contract 1 100 100 (1 / 5) (1 / 25) 0 ''put'' ''eu'') =
     Returns (N (3 / 10) - 1,
        dN (3 / 10) / 20,
        100 * dN (3 / 10),
        - (20 * dN (3 / 10)) / 2 + 4 * exp (- (1 / 25)) * N (- (1 / 10)),
        - (100 * exp (- (1 / 25)) * N (- (1 / 10))))"
    by (simp add: greeks_contract d_example spec_vega_def)
  then show ?thesis using ne by simp
qed

section \<open>The implied-volatility solver\<close>

lemma bindO_Raises:
  "bindO m f = Raises e \<longleftrightarrow> m = Raises e \<or> (\<exists>x. m = Returns x \<and> f x = Raises e)"
  by (cases m) (simp_all add: bindO_def)

lemma read_not_Raises: "read a \<noteq> Raises e"
  by (cases a) simp_all

lemma py_div_Raises:
  "py_div a b = Raises e \<longleftrightarrow>
     b = Finite 0 \<and> e = ZeroDivisionError ''float division by zero''"
  by (cases b; cases a) (auto simp add: bindO_def)

lemma d_1_Raises:
  "d_1 o1 = Raises e \<longleftrightarrow>
     strike o1 = Finite 0 \<and> e = ZeroDivisionError ''float division by zero''"
  by (auto simp add: d_1_def bindO_Raises read_not_Raises py_div_Raises np_log_def np_sqrt_def
      np_div_def Let_def)

lemma d_2_Raises:
  "d_2 o1 = Raises e \<longleftrightarrow>
     strike o1 = Finite 0 \<and> e = ZeroDivisionError ''float division by zero''"
  by (auto simp add: d_2_def bindO_Raises read_not_Raises d_1_Raises np_sqrt_def)

lemma bs_option_price_Raises:
  "bs_option_price o1 = Raises e \<longleftrightarrow>
     strike o1 = Finite 0 \<and> e = ZeroDivisionError ''float division by zero''"
  by (auto simp add: bs_option_price_def bindO_Raises read_not_Raises d_1_Raises d_2_Raises Let_def)

lemma newton_update_Inl:
  "newton_update o1 price = Inl e \<longleftrightarrow>
     strike o1 = Finite 0 \<and> e = ZeroDivisionError ''float division by zero''"
proof -
  let ?m = "bindO (bs_option_price o1) (\<lambda>p.
        let f = p - price in
        bindO (read (spot o1)) (\<lambda>S.
        bindO (d_1 o1) (\<lambda>d1.
        bindO (read (tau o1)) (\<lambda>t.
        bindO (np_sqrt t) (\<lambda>st.
        let df = S * dN d1 * st in
        bindO (read (sigma o1)) (\<lambda>sg.
        bindO (np_div f df) (\<lambda>q.
        Returns (sg - q))))))))"
  have "newton_update o1 price = Inl e \<longleftrightarrow> ?m = Raises e"
    unfolding newton_update_def by (cases ?m) simp_all
  also have "\<dots> \<longleftrightarrow> strike o1 = Finite 0 \<and> e = ZeroDivisionError ''float division by zero''"
    by (auto simp add: bindO_Raises read_not_Raises d_1_Raises bs_option_price_Raises
        np_sqrt_def np_div_def Let_def)
  finally show ?thesis .
qed

lemma within_tolerance_iff:
  "within_tolerance v w \<longleftrightarrow> (\<exists>x s. v = Finite x \<and> w = Finite s \<and> \<bar>x - s\<bar> < 1 / 100000)"
  by (cases v; cases w) simp_all

lemma iv_contract_frame: "iv_contract k o1 price = o1\<lparr>sigma := sigma (iv_contract k o1 price)\<rparr>"
proof (induction k arbitrary: o1)
  case 0
  show ?case by simp
next
  case (Suc k)
  show ?case
  proof (cases "newton_update o1 price")
    case (Inl e)
    then show ?thesis by simp
  next
    case (Inr v)
    let ?o = "o1\<lparr>sigma := v\<rparr>"
    have "iv_contract k ?o price = ?o\<lparr>sigma := sigma (iv_contract k ?o price)\<rparr>"
      by (rule Suc.IH)
    also have "\<dots> = o1\<lparr>sigma := sigma (iv_contract k ?o price)\<rparr>" by simp
    finally show ?thesis using Inr by simp
  qed
qed

lemma iv_contract_Suc:
  "iv_contract (Suc k) o1 price =
     (case newton_update (iv_contract k o1 price) price of
        Inl e \<Rightarrow> iv_contract k o1 price
      | Inr v \<Rightarrow> (iv_contract k o1 price)\<lparr>sigma := v\<rparr>)"
proof (induction k arbitrary: o1)
  case 0
  show ?case by (simp split: sum.split)
next
  case (Suc k)
  show ?case
  proof (cases "newton_update o1 price")
    case (Inl e)
    then show ?thesis by simp
  next
    case (Inr v)
    have "iv_contract (Suc (Suc k)) o1 price = iv_contract (Suc k) (o1\<lparr>sigma := v\<rparr>) price"
      using Inr by simp
    also have "\<dots> = (case newton_update (iv_contract k (o1\<lparr>sigma := v\<rparr>) price) price of
        Inl e \<Rightarrow> iv_contract k (o1\<lparr>sigma := v\<rparr>) price
      | Inr w \<Rightarrow> (iv_contract k (o1\<lparr>sigma := v\<rparr>) price)\<lparr>sigma := w\<rparr>)"
      by (rule Suc.IH)
    also have "iv_contract k (o1\<lparr>sigma := v\<rparr>) price = iv_contract (Suc k) o1 price"
      using Inr by simp
    finally show ?thesis .
  qed
qed

text \<open>
  The shape of a run of the loop: \<open>k\<close> passes miss the tolerance and write their update;
  then the contract is left as it is, and either the \<open>n\<close> passes are used up, or the
  next pass raises, or it meets the tolerance and its update is returned.
\<close>

lemma newton_iter_shape:
  "\<exists>k\<le>n.
     (\<forall>i<k. \<exists>v. newton_update (iv_contract i o1 price) price = Inr v
                \<and> \<not> within_tolerance v (sigma (iv_contract i o1 price)))
     \<and> snd (newton_iter n o1 price) = iv_contract k o1 price
     \<and> (if k = n then fst (newton_iter n o1 price) = Inr NaN
        else (\<exists>e. newton_update (iv_contract k o1 price) price = Inl e
                 \<and> fst (newton_iter n o1 price) = Inl e)
           \<or> (\<exists>x s. newton_update (iv_contract k o1 price) price = Inr (Finite x)
                 \<and> sigma (iv_contract k o1 price) = Finite s
                 \<and> \<bar>x - s\<bar> < 1 / 100000
                 \<and> fst (newton_iter n o1 price) = Inr (Value x)))"
proof (induction n arbitrary: o1)
  case 0
  show ?case by simp
next
  case (Suc n)
  show ?case
  proof (cases "newton_update o1 price")
    case (Inl e)
    then show ?thesis by (intro exI [of _ 0]) simp
  next
    case (Inr v)
    show ?thesis
    proof (cases "within_tolerance v (sigma o1)")
      case True
      then obtain x s where xs: "v = Finite x" "sigma o1 = Finite s" "\<bar>x - s\<bar> < 1 / 100000"
        by (auto simp add: within_tolerance_iff)
      with Inr True show ?thesis by (intro exI [of _ 0]) simp
    next
      case False
      let ?o = "o1\<lparr>sigma := v\<rparr>"
      have run: "newton_iter (Suc n) o1 price = newton_iter n ?o price"
        using Inr False by simp
      have st: "iv_contract (Suc i) o1 price = iv_contract i ?o price" for i
        using Inr by simp
      from Suc.IH [of ?o] obtain k where k: "k \<le> n"
        and miss: "\<forall>i<k. \<exists>w. newton_update (iv_contract i ?o price) price = Inr w
                \<and> \<not> within_tolerance w (sigma (iv_contract i ?o price))"
        and sn: "snd (newton_iter n ?o price) = iv_contract k ?o price"
        and fin: "if k = n then fst (newton_iter n ?o price) = Inr NaN
        else (\<exists>e. newton_update (iv_contract k ?o price) price = Inl e
                 \<and> fst (newton_iter n ?o price) = Inl e)
           \<or> (\<exists>x s. newton_update (iv_contract k ?o price) price = Inr (Finite x)
                 \<and> sigma (iv_contract k ?o price) = Finite s
                 \<and> \<bar>x - s\<bar> < 1 / 100000
                 \<and> fst (newton_iter n ?o price) = Inr (Value x))"
        by blast
      have miss': "\<exists>w. newton_update (iv_contract i o1 price) price = Inr w
                \<and> \<not> within_tolerance w (sigma (iv_contract i o1 price))" if "i < Suc k" for i
      proof (cases i)
        case 0
        with Inr False show ?thesis by simp
      next
        case (Suc j)
        with that have "j < k" by simp
        with miss Suc show ?thesis unfolding Suc st by blast
      qed
      show ?thesis
      proof (intro exI [of _ "Suc k"] conjI)
        show "Suc k \<le> Suc n" using k by simp
        show "\<forall>i<Suc k. \<exists>v. newton_update (iv_contract i o1 price) price = Inr v
                \<and> \<not> within_tolerance v (sigma (iv_contract i o1 price))"
          using miss' by blast
        show "snd (newton_iter (Suc n) o1 price) = iv_contract (Suc k) o1 price"
          unfolding run st by (rule sn)
        show "if Suc k = Suc n then fst (newton_iter (Suc n) o1 price) = Inr NaN
        else (\<exists>e. newton_update (iv_contract (Suc k) o1 price) price = Inl e
                 \<and> fst (newton_iter (Suc n) o1 price) = Inl e)
           \<or> (\<exists>x s. newton_update (iv_contract (Suc k) o1 price) price = Inr (Finite x)
                 \<and> sigma (iv_contract (Suc k) o1 price) = Finite s
                 \<and> \<bar>x - s\<bar> < 1 / 100000
                 \<and> fst (newton_iter (Suc n) o1 price) = Inr (Value x))"
          unfolding run st using fin by simp
      qed
    qed
  qed
qed

lemma iv_state_Suc:
  assumes "newton_update (iv_state i o1 sigma_init price) price = Inr v"
  shows "iv_state (Suc i) o1 sigma_init price = (iv_state i o1 sigma_init price)\<lparr>sigma := v\<rparr>"
  using assms unfolding iv_state_def by (simp only: iv_contract_Suc) simp

lemma iv_state_frame:
  "iv_state k o1 sigma_init price = o1\<lparr>sigma := sigma (iv_state k o1 sigma_init price)\<rparr>"
proof -
  have "iv_state k o1 sigma_init price
      = (o1\<lparr>sigma := Finite sigma_init\<rparr>)\<lparr>sigma := sigma (iv_state k o1 sigma_init price)\<rparr>"
    unfolding iv_state_def by (rule iv_contract_frame)
  then show ?thesis by simp
qed

text \<open>
  A pass on a contract with finite attributes, positive spot, strike and time to maturity
  and a volatility other than zero.
\<close>

lemma newton_update_formula:
  assumes "tau o1 = Finite t" and "spot o1 = Finite S" and "strike o1 = Finite K"
    and "r o1 = Finite rt" and "sigma o1 = Finite sg"
    and "0 < S" and "0 < K" and "0 < t" and "sg \<noteq> 0"
  shows "newton_update o1 price =
     Inr (Finite (sg - (spec_bs_price (kind o1) S K rt sg t - price) / spec_vega S K rt sg t))"
proof -
  have "o1 = (contract t S K sg rt 0 (kind o1) (region o1))\<lparr>dividend := dividend o1\<rparr>"
    using assms(1-5) by (cases o1) (simp add: contract_def)
  then have "newton_update o1 price
      = newton_update ((contract t S K sg rt 0 (kind o1) (region o1))\<lparr>dividend := dividend o1\<rparr>) price"
    by simp
  also have "\<dots> = newton_update (contract t S K sg rt 0 (kind o1) (region o1)) price"
    by (simp add: newton_update_def bs_option_price_def d_1_def d_2_def)
  also have "\<dots> = Inr (Finite (sg - (spec_bs_price (kind o1) S K rt sg t - price)
      / spec_vega S K rt sg t))"
    by (rule newton_update_contract [OF assms(6-9)])
  finally show ?thesis .
qed

lemma iv_state_0: "iv_state 0 o1 sigma_init price = o1\<lparr>sigma := Finite sigma_init\<rparr>"
  by (simp add: iv_state_def)

lemma iv_state_strike: "strike (iv_state k o1 sigma_init price) = strike o1"
proof -
  have "strike (iv_state k o1 sigma_init price)
      = strike (o1\<lparr>sigma := sigma (iv_state k o1 sigma_init price)\<rparr>)"
    using iv_state_frame [of k o1 sigma_init price] by simp
  then show ?thesis by simp
qed

text \<open>The run of \<open>find_iv\<close>, in terms of the contracts \<open>iv_state\<close>.\<close>

lemma find_iv_shape:
  "\<exists>k\<le>100.
     (\<forall>i<k. \<exists>v. newton_update (iv_state i o1 sigma_init price) price = Inr v
                \<and> \<not> within_tolerance v (sigma (iv_state i o1 sigma_init price))
                \<and> iv_state (Suc i) o1 sigma_init price
                    = (iv_state i o1 sigma_init price)\<lparr>sigma := v\<rparr>)
     \<and> snd (find_iv o1 sigma_init price) = iv_state k o1 sigma_init price
     \<and> (if k = 100 then fst (find_iv o1 sigma_init price) = Inr NaN
        else (strike o1 = Finite 0 \<and> k = 0
                 \<and> fst (find_iv o1 sigma_init price)
                     = Inl (ZeroDivisionError ''float division by zero''))
           \<or> (\<exists>x s. newton_update (iv_state k o1 sigma_init price) price = Inr (Finite x)
                 \<and> sigma (iv_state k o1 sigma_init price) = Finite s
                 \<and> \<bar>x - s\<bar> < 1 / 100000
                 \<and> fst (find_iv o1 sigma_init price) = Inr (Value x)))"
proof -
  let ?c = "o1\<lparr>sigma := Finite sigma_init\<rparr>"
  from newton_iter_shape [of 100 ?c price]
  obtain k where k: "k \<le> 100"
    and miss: "\<forall>i<k. \<exists>v. newton_update (iv_contract i ?c price) price = Inr v
                \<and> \<not> within_tolerance v (sigma (iv_contract i ?c price))"
    and sn: "snd (newton_iter 100 ?c price) = iv_contract k ?c price"
    and fin: "if k = 100 then fst (newton_iter 100 ?c price) = Inr NaN
        else (\<exists>e. newton_update (iv_contract k ?c price) price = Inl e
                 \<and> fst (newton_iter 100 ?c price) = Inl e)
           \<or> (\<exists>x s. newton_update (iv_contract k ?c price) price = Inr (Finite x)
                 \<and> sigma (iv_contract k ?c price) = Finite s
                 \<and> \<bar>x - s\<bar> < 1 / 100000
                 \<and> fst (newton_iter 100 ?c price) = Inr (Value x))"
    by blast
  have m: "\<exists>v. newton_update (iv_state i o1 sigma_init price) price = Inr v
                \<and> \<not> within_tolerance v (sigma (iv_state i o1 sigma_init price))
                \<and> iv_state (Suc i) o1 sigma_init price
                    = (iv_state i o1 sigma_init price)\<lparr>sigma := v\<rparr>" if "i < k" for i
  proof -
    from miss that obtain v where v: "newton_update (iv_state i o1 sigma_init price) price = Inr v"
      "\<not> within_tolerance v (sigma (iv_state i o1 sigma_init price))"
      unfolding iv_state_def by blast
    from iv_state_Suc [OF v(1)] v show ?thesis by blast
  qed
  have r: "strike o1 = Finite 0 \<and> k = 0
      \<and> fst (find_iv o1 sigma_init price) = Inl (ZeroDivisionError ''float division by zero'')"
    if e: "newton_update (iv_contract k ?c price) price = Inl e"
      "fst (newton_iter 100 ?c price) = Inl e" for e
  proof -
    from e(1) have "strike (iv_state k o1 sigma_init price) = Finite 0"
      and ee: "e = ZeroDivisionError ''float division by zero''"
      unfolding iv_state_def by (simp_all add: newton_update_Inl)
    then have s0: "strike o1 = Finite 0" by (simp add: iv_state_strike)
    have "k = 0"
    proof (rule ccontr)
      assume "k \<noteq> 0"
      then have "0 < k" by simp
      from m [OF this] obtain v where "newton_update (iv_state 0 o1 sigma_init price) price = Inr v"
        by blast
      moreover have "newton_update (iv_state 0 o1 sigma_init price) price
          = Inl (ZeroDivisionError ''float division by zero'')"
        using s0 by (simp add: newton_update_Inl iv_state_strike)
      ultimately show False by simp
    qed
    with s0 e(2) ee show ?thesis by (simp add: find_iv_def)
  qed
  show ?thesis
  proof (intro exI [of _ k] conjI)
    show "k \<le> 100" by (rule k)
    show "\<forall>i<k. \<exists>v. newton_update (iv_state i o1 sigma_init price) price = Inr v
                \<and> \<not> within_tolerance v (sigma (iv_state i o1 sigma_init price))
                \<and> iv_state (Suc i) o1 sigma_init price
                    = (iv_state i o1 sigma_init price)\<lparr>sigma := v\<rparr>"
      using m by blast
    show "snd (find_iv o1 sigma_init price) = iv_state k o1 sigma_init price"
      using sn by (simp add: find_iv_def iv_state_def)
    show "if k = 100 then fst (find_iv o1 sigma_init price) = Inr NaN
        else (strike o1 = Finite 0 \<and> k = 0
                 \<and> fst (find_iv o1 sigma_init price)
                     = Inl (ZeroDivisionError ''float division by zero''))
           \<or> (\<exists>x s. newton_update (iv_state k o1 sigma_init price) price = Inr (Finite x)
                 \<and> sigma (iv_state k o1 sigma_init price) = Finite s
                 \<and> \<bar>x - s\<bar> < 1 / 100000
                 \<and> fst (find_iv o1 sigma_init price) = Inr (Value x))"
    proof (cases "k = 100")
      case True
      with fin show ?thesis by (simp add: find_iv_def)
    next
      case False
      with fin consider
        (raise) e where "newton_update (iv_contract k ?c price) price = Inl e"
          "fst (newton_iter 100 ?c price) = Inl e"
        | (hit) x s where "newton_update (iv_contract k ?c price) price = Inr (Finite x)"
          "sigma (iv_contract k ?c price) = Finite s" "\<bar>x - s\<bar> < 1 / 100000"
          "fst (newton_iter 100 ?c price) = Inr (Value x)"
        by auto
      then show ?thesis
      proof cases
        case raise
        from r [OF this] False show ?thesis by simp
      next
        case hit
        then have "\<exists>x s. newton_update (iv_state k o1 sigma_init price) price = Inr (Finite x)
                 \<and> sigma (iv_state k o1 sigma_init price) = Finite s
                 \<and> \<bar>x - s\<bar> < 1 / 100000
                 \<and> fst (find_iv o1 sigma_init price) = Inr (Value x)"
          unfolding iv_state_def find_iv_def by blast
        with False show ?thesis by simp
      qed
    qed
  qed
qed

text \<open>The runs of the solver on the scenario from the two observed prices.\<close>

lemma scenario_fields:
  "tau (scenario\<lparr>sigma := v\<rparr>) = Finite 1" "spot (scenario\<lparr>sigma := v\<rparr>) = Finite 100"
  "strike (scenario\<lparr>sigma := v\<rparr>) = Finite 90" "r (scenario\<lparr>sigma := v\<rparr>) = Finite (1 / 50)"
  "sigma (scenario\<lparr>sigma := v\<rparr>) = v" "kind (scenario\<lparr>sigma := v\<rparr>) = ''call''"
  "strike scenario = Finite 90"
  by (simp_all add: scenario_def contract_def)

lemma vega_example_pos: "0 < spec_vega 100 90 (1 / 50) (3 / 10) 1"
  using dN_pos [of "spec_d_plus 100 90 (1 / 50) (3 / 10) 1"] by (simp add: spec_vega_def)

lemma update_far:
  "newton_update (scenario\<lparr>sigma := Finite (3 / 10)\<rparr>) quote_far = Inr (Finite 0)"
proof -
  have "newton_update (scenario\<lparr>sigma := Finite (3 / 10)\<rparr>) quote_far =
     Inr (Finite (3 / 10 - (spec_bs_price (kind (scenario\<lparr>sigma := Finite (3 / 10)\<rparr>)) 100 90 (1 / 50) (3 / 10) 1 - quote_far)
        / spec_vega 100 90 (1 / 50) (3 / 10) 1))"
    by (rule newton_update_formula) (simp_all add: scenario_fields)
  then show ?thesis using vega_example_pos by (simp add: scenario_fields quote_far_def)
qed

lemma update_near:
  "newton_update (scenario\<lparr>sigma := Finite (3 / 10)\<rparr>) quote_near = Inr (Finite (59999 / 200000))"
proof -
  have "newton_update (scenario\<lparr>sigma := Finite (3 / 10)\<rparr>) quote_near =
     Inr (Finite (3 / 10 - (spec_bs_price (kind (scenario\<lparr>sigma := Finite (3 / 10)\<rparr>)) 100 90 (1 / 50) (3 / 10) 1 - quote_near)
        / spec_vega 100 90 (1 / 50) (3 / 10) 1))"
    by (rule newton_update_formula) (simp_all add: scenario_fields)
  then show ?thesis using vega_example_pos by (simp add: scenario_fields quote_near_def)
qed

lemma update_zero_sigma:
  "newton_update (scenario\<lparr>sigma := Finite 0\<rparr>) price = Inr NonFinite"
  by (simp add: newton_update_def bs_option_price_def d_1_def scenario_fields bindO_def
      np_log_def np_sqrt_def np_div_def Let_def)

lemma update_nan_sigma:
  "newton_update (scenario\<lparr>sigma := NonFinite\<rparr>) price = Inr NonFinite"
  by (simp add: newton_update_def bs_option_price_def d_1_def scenario_fields bindO_def
      np_log_def np_sqrt_def np_div_def Let_def)

lemma states_far:
  "iv_state (Suc j) scenario (3 / 10) quote_far
     = scenario\<lparr>sigma := (if j = 0 then Finite 0 else NonFinite)\<rparr>"
proof (induction j)
  case 0
  have "iv_state (Suc 0) scenario (3 / 10) quote_far
      = (iv_state 0 scenario (3 / 10) quote_far)\<lparr>sigma := Finite 0\<rparr>"
    by (rule iv_state_Suc) (simp add: iv_state_0 update_far)
  then show ?case by (simp add: iv_state_0)
next
  case (Suc j)
  have "newton_update (iv_state (Suc j) scenario (3 / 10) quote_far) quote_far = Inr NonFinite"
    unfolding Suc.IH by (simp add: update_zero_sigma update_nan_sigma)
  then have "iv_state (Suc (Suc j)) scenario (3 / 10) quote_far
      = (iv_state (Suc j) scenario (3 / 10) quote_far)\<lparr>sigma := NonFinite\<rparr>"
    by (rule iv_state_Suc)
  then show ?case unfolding Suc.IH by simp
qed

lemma no_hit_far:
  "\<not> (\<exists>x s. newton_update (iv_state k scenario (3 / 10) quote_far) quote_far = Inr (Finite x)
         \<and> sigma (iv_state k scenario (3 / 10) quote_far) = Finite s
         \<and> \<bar>x - s\<bar> < 1 / 100000)"
proof (cases k)
  case 0
  then show ?thesis by (simp add: iv_state_0 update_far scenario_fields)
next
  case (Suc j)
  then show ?thesis by (simp add: states_far update_zero_sigma update_nan_sigma)
qed



text \<open>
  Claim C10. The solver writes to the volatility attribute only: the contract it leaves,
  and the contract after any number of passes, is the contract it was given with another
  volatility. With \<open>k\<close> the number of passes that missed the tolerance, the volatility
  left is the initial guess when \<open>k = 0\<close> and the update computed by pass \<open>k\<close>
  otherwise. On a convergent return the value returned is the update computed from the
  contract as it is left, which is not written back and lies within \<open>1e-5\<close> of the
  volatility left; on a \<open>NaN\<close> return \<open>k = 100\<close>, so the volatility left is the update
  of the last pass.
\<close>

theorem find_iv_frame:
  "(\<exists>k\<le>100.
      snd (find_iv o1 sigma_init price) = iv_state k o1 sigma_init price
    \<and> (\<forall>i<k. \<exists>v. newton_update (iv_state i o1 sigma_init price) price = Inr v
                \<and> \<not> within_tolerance v (sigma (iv_state i o1 sigma_init price))
                \<and> sigma (iv_state (Suc i) o1 sigma_init price) = v)
    \<and> (\<forall>x. fst (find_iv o1 sigma_init price) = Inr (Value x) \<longrightarrow>
           k < 100
         \<and> newton_update (snd (find_iv o1 sigma_init price)) price = Inr (Finite x)
         \<and> (\<exists>s. sigma (snd (find_iv o1 sigma_init price)) = Finite s \<and> \<bar>x - s\<bar> < 1 / 100000))
    \<and> (fst (find_iv o1 sigma_init price) = Inr NaN \<longrightarrow> k = 100))
   \<and> sigma (iv_state 0 o1 sigma_init price) = Finite sigma_init
   \<and> (\<forall>i. iv_state i o1 sigma_init price
            = o1\<lparr>sigma := sigma (iv_state i o1 sigma_init price)\<rparr>)
   \<and> snd (find_iv o1 sigma_init price) = o1\<lparr>sigma := sigma (snd (find_iv o1 sigma_init price))\<rparr>
   \<and> tau (snd (find_iv o1 sigma_init price)) = tau o1
   \<and> spot (snd (find_iv o1 sigma_init price)) = spot o1
   \<and> strike (snd (find_iv o1 sigma_init price)) = strike o1
   \<and> r (snd (find_iv o1 sigma_init price)) = r o1
   \<and> dividend (snd (find_iv o1 sigma_init price)) = dividend o1
   \<and> kind (snd (find_iv o1 sigma_init price)) = kind o1
   \<and> region (snd (find_iv o1 sigma_init price)) = region o1"
proof -
  from find_iv_shape [of o1 sigma_init price]
  obtain k where k: "k \<le> 100"
    and miss: "\<forall>i<k. \<exists>v. newton_update (iv_state i o1 sigma_init price) price = Inr v
                \<and> \<not> within_tolerance v (sigma (iv_state i o1 sigma_init price))
                \<and> iv_state (Suc i) o1 sigma_init price
                    = (iv_state i o1 sigma_init price)\<lparr>sigma := v\<rparr>"
    and sn: "snd (find_iv o1 sigma_init price) = iv_state k o1 sigma_init price"
    and fin: "if k = 100 then fst (find_iv o1 sigma_init price) = Inr NaN
        else (strike o1 = Finite 0 \<and> k = 0
                 \<and> fst (find_iv o1 sigma_init price)
                     = Inl (ZeroDivisionError ''float division by zero''))
           \<or> (\<exists>x s. newton_update (iv_state k o1 sigma_init price) price = Inr (Finite x)
                 \<and> sigma (iv_state k o1 sigma_init price) = Finite s
                 \<and> \<bar>x - s\<bar> < 1 / 100000
                 \<and> fst (find_iv o1 sigma_init price) = Inr (Value x))"
    by blast
  have m: "\<forall>i<k. \<exists>v. newton_update (iv_state i o1 sigma_init price) price = Inr v
                \<and> \<not> within_tolerance v (sigma (iv_state i o1 sigma_init price))
                \<and> sigma (iv_state (Suc i) o1 sigma_init price) = v"
  proof (intro allI impI)
    fix i assume "i < k"
    with miss obtain v where "newton_update (iv_state i o1 sigma_init price) price = Inr v"
      "\<not> within_tolerance v (sigma (iv_state i o1 sigma_init price))"
      "iv_state (Suc i) o1 sigma_init price = (iv_state i o1 sigma_init price)\<lparr>sigma := v\<rparr>"
      by blast
    then show "\<exists>v. newton_update (iv_state i o1 sigma_init price) price = Inr v
                \<and> \<not> within_tolerance v (sigma (iv_state i o1 sigma_init price))
                \<and> sigma (iv_state (Suc i) o1 sigma_init price) = v"
      by simp
  qed
  have val: "k < 100
         \<and> newton_update (snd (find_iv o1 sigma_init price)) price = Inr (Finite x)
         \<and> (\<exists>s. sigma (snd (find_iv o1 sigma_init price)) = Finite s \<and> \<bar>x - s\<bar> < 1 / 100000)"
    if "fst (find_iv o1 sigma_init price) = Inr (Value x)" for x
    using that fin k unfolding sn by (cases "k = 100") auto
  have nan: "k = 100" if "fst (find_iv o1 sigma_init price) = Inr NaN"
    using that fin by (cases "k = 100") auto
  have fr: "snd (find_iv o1 sigma_init price)
      = o1\<lparr>sigma := sigma (snd (find_iv o1 sigma_init price))\<rparr>"
    unfolding sn by (rule iv_state_frame)
  have flds: "tau (snd (find_iv o1 sigma_init price)) = tau o1"
    "spot (snd (find_iv o1 sigma_init price)) = spot o1"
    "strike (snd (find_iv o1 sigma_init price)) = strike o1"
    "r (snd (find_iv o1 sigma_init price)) = r o1"
    "dividend (snd (find_iv o1 sigma_init price)) = dividend o1"
    "kind (snd (find_iv o1 sigma_init price)) = kind o1"
    "region (snd (find_iv o1 sigma_init price)) = region o1"
    by (subst fr, simp)+
  have "\<exists>k\<le>100.
      snd (find_iv o1 sigma_init price) = iv_state k o1 sigma_init price
    \<and> (\<forall>i<k. \<exists>v. newton_update (iv_state i o1 sigma_init price) price = Inr v
                \<and> \<not> within_tolerance v (sigma (iv_state i o1 sigma_init price))
                \<and> sigma (iv_state (Suc i) o1 sigma_init price) = v)
    \<and> (\<forall>x. fst (find_iv o1 sigma_init price) = Inr (Value x) \<longrightarrow>
           k < 100
         \<and> newton_update (snd (find_iv o1 sigma_init price)) price = Inr (Finite x)
         \<and> (\<exists>s. sigma (snd (find_iv o1 sigma_init price)) = Finite s \<and> \<bar>x - s\<bar> < 1 / 100000))
    \<and> (fst (find_iv o1 sigma_init price) = Inr NaN \<longrightarrow> k = 100)"
    using k sn m val nan by blast
  moreover have "sigma (iv_state 0 o1 sigma_init price) = Finite sigma_init"
    by (simp add: iv_state_0)
  moreover have "\<forall>i. iv_state i o1 sigma_init price
            = o1\<lparr>sigma := sigma (iv_state i o1 sigma_init price)\<rparr>"
    using iv_state_frame by blast
  ultimately show ?thesis using fr flds by blast
qed

lemma fst_far: "fst (find_iv scenario (3 / 10) quote_far) = Inr NaN"
proof -
  from find_iv_shape [of scenario "3 / 10" quote_far]
  obtain k where
    fin: "if k = 100 then fst (find_iv scenario (3 / 10) quote_far) = Inr NaN
        else (strike scenario = Finite 0 \<and> k = 0
                 \<and> fst (find_iv scenario (3 / 10) quote_far)
                     = Inl (ZeroDivisionError ''float division by zero''))
           \<or> (\<exists>x s. newton_update (iv_state k scenario (3 / 10) quote_far) quote_far = Inr (Finite x)
                 \<and> sigma (iv_state k scenario (3 / 10) quote_far) = Finite s
                 \<and> \<bar>x - s\<bar> < 1 / 100000
                 \<and> fst (find_iv scenario (3 / 10) quote_far) = Inr (Value x))"
    by blast
  have "k = 100"
  proof (rule ccontr)
    assume "k \<noteq> 100"
    with fin no_hit_far [of k] show False by (auto simp add: scenario_fields)
  qed
  with fin show ?thesis by simp
qed

theorem find_iv_frame_witness:
  "sigma scenario = Finite (1 / 5)
   \<and> snd (find_iv scenario (3 / 10) quote_near) = scenario\<lparr>sigma := Finite (3 / 10)\<rparr>
   \<and> newton_update (snd (find_iv scenario (3 / 10) quote_near)) quote_near
       = Inr (Finite (59999 / 200000))
   \<and> snd (find_iv scenario (3 / 10) quote_far) = scenario\<lparr>sigma := NonFinite\<rparr>"
proof -
  from find_iv_frame [of scenario "3 / 10" quote_near, THEN conjunct1]
  obtain k where sn: "snd (find_iv scenario (3 / 10) quote_near) = iv_state k scenario (3 / 10) quote_near"
    and miss: "\<forall>i<k. \<exists>v. newton_update (iv_state i scenario (3 / 10) quote_near) quote_near = Inr v
                \<and> \<not> within_tolerance v (sigma (iv_state i scenario (3 / 10) quote_near))
                \<and> sigma (iv_state (Suc i) scenario (3 / 10) quote_near) = v"
    by blast
  have "k = 0"
  proof (rule ccontr)
    assume "k \<noteq> 0"
    then have "0 < k" by simp
    with miss have "\<exists>v. newton_update (iv_state 0 scenario (3 / 10) quote_near) quote_near = Inr v
                \<and> \<not> within_tolerance v (sigma (iv_state 0 scenario (3 / 10) quote_near))"
      by blast
    then show False by (simp add: iv_state_0 update_near scenario_fields)
  qed
  with sn have near: "snd (find_iv scenario (3 / 10) quote_near) = scenario\<lparr>sigma := Finite (3 / 10)\<rparr>"
    by (simp add: iv_state_0)
  from find_iv_frame [of scenario "3 / 10" quote_far, THEN conjunct1]
  obtain j where sj: "snd (find_iv scenario (3 / 10) quote_far) = iv_state j scenario (3 / 10) quote_far"
    and nan: "fst (find_iv scenario (3 / 10) quote_far) = Inr NaN \<longrightarrow> j = 100"
    by blast
  from nan fst_far have "j = Suc 99" by simp
  with sj have far: "snd (find_iv scenario (3 / 10) quote_far) = scenario\<lparr>sigma := NonFinite\<rparr>"
    by (simp only: states_far) simp
  have "sigma scenario = Finite (1 / 5)" by (simp add: scenario_def contract_def)
  with near far show ?thesis by (simp add: update_near)
qed

end
